theory Spec2Isabelle
  imports Complex_Main "HOL-Library.Word"
begin

unbundle bit_operations_syntax

section \<open>JavaScript numbers\<close>

text \<open>
  A JavaScript number is an IEEE 754 binary64 value. A finite one is modelled by the
  rational it denotes; the two infinities and NaN are values of their own. The sign of
  zero is not modelled (\<open>-0\<close> is \<open>0\<close>). Every arithmetic operation computes the
  exact result and rounds it to the nearest binary64 value, ties to even (\<open>fl\<close>).
\<close>

datatype jsnum = Fin rat | PInf | NInf | NaN

function ilog2 :: "int \<Rightarrow> int" where
  "ilog2 n = (if n < 2 then 0 else 1 + ilog2 (n div 2))"
  by pat_completeness auto
termination
  by (relation "measure nat") auto

declare ilog2.simps [simp del]

definition pow2 :: "int \<Rightarrow> rat" where
  "pow2 k = (if 0 \<le> k then 2 ^ nat k else 1 / 2 ^ nat (- k))"

text \<open>The binary exponent of a positive rational: \<open>pow2 e \<le> x < pow2 (e + 1)\<close>.\<close>

definition exponent2 :: "rat \<Rightarrow> int" where
  "exponent2 x =
     (let (p, q) = quotient_of x;
          d = ilog2 p - ilog2 q
      in if pow2 d \<le> x then d else d - 1)"

definition round_half_even :: "rat \<Rightarrow> int" where
  "round_half_even y =
     (let f = \<lfloor>y\<rfloor>; d = y - of_int f
      in if d < 1 / 2 then f else if 1 / 2 < d then f + 1
         else if even f then f else f + 1)"

text \<open>
  Rounding to binary64: 53 significant bits, the least exponent \<open>-1022\<close> (below it the
  spacing stays \<open>2^-1074\<close>). The rounded significand \<open>m\<close> lies between \<open>2^52\<close> and
  \<open>2^53\<close>, so the rounded value reaches \<open>2^1024\<close>, and overflows to an infinity, when
  the exponent is above 1023, or is 1023 and \<open>m\<close> is \<open>2^53\<close>.
\<close>

definition fl :: "rat \<Rightarrow> jsnum" where
  "fl x =
     (if x = 0 then Fin 0
      else let a = \<bar>x\<bar>;
               e = max (exponent2 a) (- 1022);
               q = pow2 (e - 52);
               m = round_half_even (a / q)
           in if 1023 < e \<or> (e = 1023 \<and> m = 2 ^ 53) then (if 0 < x then PInf else NInf)
              else Fin (sgn x * (of_int m * q)))"

text \<open>An integer that a number holds exactly (an image dimension, a 32-bit integer).\<close>

definition num :: "int \<Rightarrow> jsnum" where
  "num n = Fin (of_int n)"

text \<open>The operators \<open>*\<close>, \<open>/\<close> and \<open><\<close>, and \<open>Math.floor\<close>.\<close>

fun js_mul :: "jsnum \<Rightarrow> jsnum \<Rightarrow> jsnum" where
  "js_mul NaN _ = NaN"
| "js_mul _ NaN = NaN"
| "js_mul (Fin a) (Fin b) = fl (a * b)"
| "js_mul (Fin a) PInf = (if a = 0 then NaN else if 0 < a then PInf else NInf)"
| "js_mul (Fin a) NInf = (if a = 0 then NaN else if 0 < a then NInf else PInf)"
| "js_mul PInf (Fin b) = (if b = 0 then NaN else if 0 < b then PInf else NInf)"
| "js_mul NInf (Fin b) = (if b = 0 then NaN else if 0 < b then NInf else PInf)"
| "js_mul PInf PInf = PInf"
| "js_mul PInf NInf = NInf"
| "js_mul NInf PInf = NInf"
| "js_mul NInf NInf = PInf"

fun js_div :: "jsnum \<Rightarrow> jsnum \<Rightarrow> jsnum" where
  "js_div NaN _ = NaN"
| "js_div _ NaN = NaN"
| "js_div (Fin a) (Fin b) =
     (if b = 0 then (if a = 0 then NaN else if 0 < a then PInf else NInf)
      else fl (a / b))"
| "js_div (Fin a) PInf = Fin 0"
| "js_div (Fin a) NInf = Fin 0"
| "js_div PInf (Fin b) = (if 0 \<le> b then PInf else NInf)"
| "js_div NInf (Fin b) = (if 0 \<le> b then NInf else PInf)"
| "js_div PInf PInf = NaN"
| "js_div PInf NInf = NaN"
| "js_div NInf PInf = NaN"
| "js_div NInf NInf = NaN"

fun js_lt :: "jsnum \<Rightarrow> jsnum \<Rightarrow> bool" where
  "js_lt (Fin a) (Fin b) = (a < b)"
| "js_lt (Fin a) PInf = True"
| "js_lt NInf (Fin b) = True"
| "js_lt NInf PInf = True"
| "js_lt _ _ = False"

fun js_floor :: "jsnum \<Rightarrow> jsnum" where
  "js_floor (Fin a) = Fin (of_int \<lfloor>a\<rfloor>)"
| "js_floor x = x"

text \<open>
  The remainder operator \<open>%\<close> on integers: the result has the sign of the dividend.
  On the integers below \<open>2^53\<close> it is exact.
\<close>

definition js_rem :: "int \<Rightarrow> int \<Rightarrow> int" where
  "js_rem a b = sgn a * (\<bar>a\<bar> mod \<bar>b\<bar>)"

section \<open>The seeded generator\<close>

text \<open>
  The generator of line 34 comes from the library \<open>seedrandom\<close>. What follows is the
  function \<open>seedrandom\<close> of that library with the functions that it calls, \<open>mixkey\<close>
  and the constructor \<open>ARC4\<close> with its method \<open>g\<close>, for a seed that is a string.
  The library keeps an array \<open>pool\<close>, its global entropy pool: every call of
  \<open>seedrandom\<close> mixes the state of the new generator into the pool, and a call with the
  option \<open>entropy\<close> makes its key from the seed and the pool together. A call without
  options, as the one of line 34, makes the key from the seed alone.

  An array of numbers is a list. \<open>mixkey\<close> fills the indices of the key in increasing
  order, so an index that is not in the array is its length. \<open>smear\<close> stays below
  \<open>2^13\<close>, so \<open>^\<close> is the exclusive or of natural numbers; \<open>mask & n\<close> is
  \<open>n mod 256\<close>; reading an index that is not in the array gives \<open>undefined\<close>, which
  leaves \<open>smear\<close> as it is.
\<close>

definition assign_at :: "nat list \<Rightarrow> nat \<Rightarrow> nat \<Rightarrow> nat list" where
  "assign_at a k v = (if k < length a then a[k := v] else a @ [v])"

fun mixkey_from :: "nat \<Rightarrow> nat \<Rightarrow> string \<Rightarrow> nat list \<Rightarrow> nat list" where
  "mixkey_from j smear [] key = key"
| "mixkey_from j smear (c # stringseed) key =
     (let k = j mod 256;
          smear' = (if k < length key then smear XOR (key ! k * 19) else smear)
      in mixkey_from (j + 1) smear' stringseed
           (assign_at key k ((smear' + of_char c) mod 256)))"

definition mixkey :: "string \<Rightarrow> nat list \<Rightarrow> nat list" where
  "mixkey seed key = mixkey_from 0 0 seed key"

text \<open>
  The generator: the indices \<open>i\<close> and \<open>j\<close> and the permutation \<open>S\<close> of the numbers below
  256. \<open>g(count)\<close> gives the next \<open>count\<close> bytes as one number. The constructor sets \<open>S\<close>
  up from the key (the empty key is the key \<open>[0]\<close>) and discards the first 256 bytes.
\<close>

record arc4 =
  me_i :: nat
  me_j :: nat
  me_S :: "nat list"

fun arc4_g_from :: "nat \<Rightarrow> nat \<Rightarrow> arc4 \<Rightarrow> nat \<times> arc4" where
  "arc4_g_from 0 r me = (r, me)"
| "arc4_g_from (Suc count) r me =
     (let i = (me_i me + 1) mod 256;
          t = me_S me ! i;
          j = (me_j me + t) mod 256;
          s = (me_S me)[i := me_S me ! j, j := t]
      in arc4_g_from count (r * 256 + s ! ((s ! i + s ! j) mod 256))
           \<lparr>me_i = i, me_j = j, me_S = s\<rparr>)"

definition arc4_g :: "nat \<Rightarrow> arc4 \<Rightarrow> nat \<times> arc4" where
  "arc4_g count me = arc4_g_from count 0 me"

definition schedule :: "nat list \<Rightarrow> nat \<Rightarrow> nat \<times> nat list \<Rightarrow> nat \<times> nat list" where
  "schedule key i js =
     (let t = snd js ! i;
          j = (fst js + key ! (i mod length key) + t) mod 256
      in (j, (snd js)[i := snd js ! j, j := t]))"

definition ARC4 :: "nat list \<Rightarrow> arc4" where
  "ARC4 key0 =
     (let key = (if length key0 = 0 then [0] else key0);
          s = snd (fold (schedule key) [0 ..< 256] (0, [0 ..< 256]))
      in snd (arc4_g 256 \<lparr>me_i = 0, me_j = 0, me_S = s\<rparr>))"

definition tostring :: "nat list \<Rightarrow> string" where
  "tostring a = map char_of a"

text \<open>
  \<open>seedrandom(seed, options)\<close> in the state \<open>pool\<close> of the entropy pool: the new
  generator and the pool as the call leaves it. With the option \<open>entropy\<close> the key is
  made from the array of the seed and the pool, which \<open>mixkey\<close> reads as the two
  strings with a comma between them.
\<close>

definition seedrandom :: "string \<Rightarrow> bool \<Rightarrow> nat list \<Rightarrow> arc4 \<times> nat list" where
  "seedrandom seed entropy pool =
     (let key = mixkey (if entropy then seed @ '','' @ tostring pool else seed) [];
          arc4 = ARC4 key
      in (arc4, mixkey (tostring (me_S arc4)) pool))"

text \<open>The method \<open>int32\<close> of a generator: \<^verbatim>\<open>arc4.g(4) | 0\<close>.\<close>

definition prng_int32 :: "arc4 \<Rightarrow> 32 word \<times> arc4" where
  "prng_int32 arc4 = (word_of_nat (fst (arc4_g 4 arc4)), snd (arc4_g 4 arc4))"

text \<open>
  \<^verbatim>\<open>seedrandom(outputFileName).int32()\<close> of line 34, when the entropy pool of the
  library is \<open>pool\<close>.
\<close>

definition seeded_int32 :: "nat list \<Rightarrow> string \<Rightarrow> 32 word" where
  "seeded_int32 pool outputFileName =
     fst (prng_int32 (fst (seedrandom outputFileName False pool)))"

section \<open>The train/test split\<close>

text \<open>
  \<open>seedrandom(name).int32()\<close> is a function of the library: a generator seeded with
  the string, and its first 32-bit signed integer. The split takes it as a parameter
  \<open>int32\<close>, so that what is proved of the split holds for every generator;
  \<open>seeded_int32 pool\<close> above is the generator of the library.
  Lines 34 and 37 of \<open>index.js\<close>:
  \<^verbatim>\<open>const seed = Math.abs(seedrandom(outputFileName).int32());\<close>
  \<^verbatim>\<open>const subdir = (seed % 10 / 10 < trainRatio) ? 'train': 'test';\<close>
  \<open>Math.abs\<close> works on numbers, so the absolute value of \<open>-2^31\<close> is \<open>2^31\<close>.
\<close>

definition seed :: "(string \<Rightarrow> 32 word) \<Rightarrow> string \<Rightarrow> int" where
  "seed int32 outputFileName = \<bar>sint (int32 outputFileName)\<bar>"

definition subdir :: "(string \<Rightarrow> 32 word) \<Rightarrow> string \<Rightarrow> jsnum \<Rightarrow> string" where
  "subdir int32 outputFileName trainRatio =
     (if js_lt (js_div (num (js_rem (seed int32 outputFileName) 10)) (num 10)) trainRatio
      then ''train'' else ''test'')"

section \<open>File names\<close>

text \<open>
  \<open>path.parse(p).name\<close> of Node.js on POSIX paths: the last component of the path
  without its extension. The extension starts at the last dot of the component, unless
  that dot is its first character or the component is \<open>..\<close>.
\<close>

definition basename :: "string \<Rightarrow> string" where
  "basename p = rev (takeWhile (\<lambda>c. c \<noteq> CHR ''/'') (dropWhile (\<lambda>c. c = CHR ''/'') (rev p)))"

definition path_parse_name :: "string \<Rightarrow> string" where
  "path_parse_name p =
     (let b = basename p;
          e = takeWhile (\<lambda>c. c \<noteq> CHR ''.'') (rev b);
          stem = take (length b - length e - 1) b
      in if CHR ''.'' \<notin> set b \<or> stem = [] \<or> b = ''..'' then b else stem)"

text \<open>The decimal digits of an array index, as \<open>Object.entries\<close> gives the keys of an array.\<close>

definition digit :: "nat \<Rightarrow> char" where
  "digit d = char_of (d + 48)"

fun decimal :: "nat \<Rightarrow> string" where
  "decimal n = (if 10 \<le> n then decimal (n div 10) @ [digit (n mod 10)] else [digit n])"

declare decimal.simps [simp del]

definition entries :: "'a list \<Rightarrow> (string \<times> 'a) list" where
  "entries xs = zip (map decimal [0 ..< length xs]) xs"

text \<open>Line 31: \<^verbatim>\<open>const outputFileName = `${path.parse(baseFile).name}_${i}.jpg`;\<close>\<close>

definition outputFileName :: "string \<Rightarrow> string \<Rightarrow> string" where
  "outputFileName baseFile i = path_parse_name baseFile @ ''_'' @ i @ ''.jpg''"

text \<open>
  What the specification means by the position of a catalog entry in a file name: the
  decimal numeral of the position. A string is the numeral of \<open>n\<close> when it is not empty,
  holds decimal digits only, has no leading zero, and its value, read from the left in
  base ten, is \<open>n\<close>.
\<close>

definition digit_value :: "char \<Rightarrow> nat" where
  "digit_value c = of_char c - 48"

definition spec_index_numeral :: "string \<Rightarrow> nat \<Rightarrow> bool" where
  "spec_index_numeral s n \<longleftrightarrow>
     s \<noteq> [] \<and> set s \<subseteq> set ''0123456789'' \<and> (hd s = CHR ''0'' \<longrightarrow> s = ''0'')
     \<and> foldl (\<lambda>a c. 10 * a + digit_value c) 0 s = n"

section \<open>Errors and the file system\<close>

text \<open>
  Every exception of the program is a value. A file has a modification time and, when it
  decodes as an image, the image's width and height. The world is the map from paths to
  files, the clock, the lines written by \<open>console.log\<close> and the paths written by
  \<open>toFile\<close>, in order. Writing a file stamps it with the clock, which then moves on.
\<close>

datatype error =
    ENOENT string
  | UnsupportedImage string
  | InvalidParameter string
  | TypeError
  | CompositeTooLarge
  | UnhandledRejection error
  | CatalogError
  | InvalidArgument string
  | MissingOption string

type_synonym size = "nat \<times> nat"

record stats =
  mtime :: int
  image :: "size option"

record world =
  files :: "string \<rightharpoonup> stats"
  now :: int
  console :: "string list"
  encoded :: "string list"

definition bindE :: "error + 'a \<Rightarrow> ('a \<Rightarrow> error + 'b) \<Rightarrow> error + 'b" where
  "bindE m f = (case m of Inl e \<Rightarrow> Inl e | Inr x \<Rightarrow> f x)"

definition console_log :: "string \<Rightarrow> world \<Rightarrow> world" where
  "console_log line w = w\<lparr>console := console w @ [line]\<rparr>"

definition existsSync :: "world \<Rightarrow> string \<Rightarrow> bool" where
  "existsSync w p = (files w p \<noteq> None)"

definition statSync :: "world \<Rightarrow> string \<Rightarrow> error + stats" where
  "statSync w p = (case files w p of None \<Rightarrow> Inl (ENOENT p) | Some f \<Rightarrow> Inr f)"

section \<open>The image library\<close>

text \<open>
  The program uses \<open>sharp\<close> for \<open>metadata\<close>, \<open>resize\<close>, \<open>composite\<close>, \<open>toBuffer\<close>
  and \<open>toFile\<close>. Pixels are not modelled, sizes are. As the library documents:
  \<open>resize\<close> takes positive integers and throws on anything else; with a width and a
  height the result has exactly that size, with the fit \<open>fill\<close> as with the default
  \<open>cover\<close>; \<open>composite\<close> takes integer offsets, keeps the size of the image it draws
  on, and refuses an overlay larger than that image. With a width only, \<open>resize\<close>
  chooses the height itself, from the aspect ratio of the input and by its own rounding:
  that height is a parameter \<open>auto_height\<close> here, a function of the width asked for and
  the size of the input, of which nothing is assumed.
\<close>

definition metadata :: "world \<Rightarrow> string \<Rightarrow> error + size" where
  "metadata w p =
     (case files w p of
        None \<Rightarrow> Inl (ENOENT p)
      | Some f \<Rightarrow> (case image f of None \<Rightarrow> Inl (UnsupportedImage p) | Some s \<Rightarrow> Inr s))"

definition integer_of :: "jsnum \<Rightarrow> int option" where
  "integer_of x = (case x of Fin q \<Rightarrow> (if of_int \<lfloor>q\<rfloor> = q then Some \<lfloor>q\<rfloor> else None) | _ \<Rightarrow> None)"

definition positive_integer :: "string \<Rightarrow> jsnum \<Rightarrow> error + nat" where
  "positive_integer what x =
     (case integer_of x of
        Some n \<Rightarrow> (if 0 < n then Inr (nat n) else Inl (InvalidParameter what))
      | None \<Rightarrow> Inl (InvalidParameter what))"

definition resize_width :: "(nat \<Rightarrow> size \<Rightarrow> nat) \<Rightarrow> jsnum \<Rightarrow> size \<Rightarrow> error + size" where
  "resize_width auto_height width s =
     bindE (positive_integer ''width'' width) (\<lambda>w. Inr (w, auto_height w s))"

definition resize_to :: "jsnum \<Rightarrow> jsnum \<Rightarrow> error + size" where
  "resize_to width height =
     bindE (positive_integer ''width'' width) (\<lambda>w.
     bindE (positive_integer ''height'' height) (\<lambda>h. Inr (w, h)))"

datatype placement = Gravity string | TopLeft int int

text \<open>
  What \<open>composite(...).toFile(outputFile)\<close> is asked to encode: the image drawn on
  (the resized background), the size of the overlay as it is drawn, where, and how.
\<close>

record composition =
  canvas :: size
  overlay :: size
  place :: placement
  blend :: string

definition write_image :: "world \<Rightarrow> string \<Rightarrow> size \<Rightarrow> world" where
  "write_image w p s =
     w\<lparr>files := (files w)(p \<mapsto> \<lparr>mtime = now w, image = Some s\<rparr>),
       now := now w + 1,
       encoded := encoded w @ [p]\<rparr>"

definition toFile :: "world \<Rightarrow> string \<Rightarrow> composition \<Rightarrow> error + world" where
  "toFile w outputFile c =
     (if fst (canvas c) < fst (overlay c) \<or> snd (canvas c) < snd (overlay c)
      then Inl CompositeTooLarge
      else Inr (write_image w outputFile (canvas c)))"

section \<open>The two compositors\<close>

text \<open>
  \<open>centerImage\<close>, lines 70 to 81. The background is resized to the width
  \<^verbatim>\<open>Math.floor(Math.max(baseMeta.width, baseMeta.height) * 1.2)\<close>; the overlay is the
  base file itself, at gravity \<open>center\<close>; the blend is the library's default \<open>over\<close>.
\<close>

definition centerWidth :: "size \<Rightarrow> jsnum" where
  "centerWidth baseMeta =
     js_floor (js_mul (num (int (max (fst baseMeta) (snd baseMeta)))) (fl (6 / 5)))"

definition centerComposition ::
  "(nat \<Rightarrow> size \<Rightarrow> nat) \<Rightarrow> size \<Rightarrow> size \<Rightarrow> error + composition" where
  "centerComposition auto_height baseMeta backgroundMeta =
     bindE (resize_width auto_height (centerWidth baseMeta) backgroundMeta) (\<lambda>resized.
       Inr \<lparr>canvas = resized, overlay = baseMeta, place = Gravity ''center'', blend = ''over''\<rparr>)"

definition centerImage ::
  "(nat \<Rightarrow> size \<Rightarrow> nat) \<Rightarrow> world \<Rightarrow> string \<Rightarrow> string \<Rightarrow> string \<Rightarrow> error + world" where
  "centerImage auto_height w baseFile backgroundFile outputFile =
     bindE (metadata w baseFile) (\<lambda>baseMeta.
     bindE (positive_integer ''width'' (centerWidth baseMeta)) (\<lambda>width.
     bindE (metadata w backgroundFile) (\<lambda>backgroundMeta.
     bindE (centerComposition auto_height baseMeta backgroundMeta) (toFile w outputFile))))"

text \<open>
  \<open>placeOnTransparent\<close>, lines 91 to 118. The boundary holds four numbers of the
  catalog. The call of \<open>toFile\<close> on line 117 is not awaited: the function returns when
  it has started the encoding, before the output file exists, and it returns in the same
  way when the library is going to refuse the composite. Its result here is the encoding
  that it has started, the output path and the composition; the world is as it was.
  \<open>composite\<close> looks at \<open>left\<close> before it looks at \<open>top\<close>.
\<close>

record boundary =
  left :: jsnum
  top :: jsnum
  width :: jsnum
  height :: jsnum

definition resizedBase :: "size \<Rightarrow> boundary \<Rightarrow> error + size" where
  "resizedBase baseMeta transparentBoundary =
     resize_to (num (int (fst baseMeta)))
       (js_floor (js_div (js_mul (num (int (fst baseMeta))) (height transparentBoundary))
                         (width transparentBoundary)))"

definition backgroundScale :: "size \<Rightarrow> size \<Rightarrow> boundary \<Rightarrow> jsnum" where
  "backgroundScale baseMeta backgroundMeta transparentBoundary =
     js_div (num (int (fst baseMeta)))
            (js_mul (num (int (fst backgroundMeta))) (width transparentBoundary))"

definition resizedBackground :: "size \<Rightarrow> jsnum \<Rightarrow> error + size" where
  "resizedBackground backgroundMeta scale =
     resize_to (js_floor (js_mul (num (int (fst backgroundMeta))) scale))
               (js_floor (js_mul (num (int (snd backgroundMeta))) scale))"

definition compositeAt :: "size \<Rightarrow> boundary \<Rightarrow> error + placement" where
  "compositeAt backgroundMeta transparentBoundary =
     (case (integer_of (js_floor (js_mul (top transparentBoundary) (num (int (snd backgroundMeta))))),
            integer_of (js_floor (js_mul (left transparentBoundary) (num (int (fst backgroundMeta))))))
      of (Some t, Some l) \<Rightarrow> Inr (TopLeft t l)
       | (_, None) \<Rightarrow> Inl (InvalidParameter ''left'')
       | (None, Some l) \<Rightarrow> Inl (InvalidParameter ''top''))"

definition placeComposition :: "size \<Rightarrow> size \<Rightarrow> boundary \<Rightarrow> error + composition" where
  "placeComposition baseMeta backgroundMeta0 transparentBoundary =
     bindE (resizedBackground backgroundMeta0
              (backgroundScale baseMeta backgroundMeta0 transparentBoundary)) (\<lambda>backgroundMeta.
     bindE (compositeAt backgroundMeta transparentBoundary) (\<lambda>offset.
       Inr \<lparr>canvas = backgroundMeta, overlay = baseMeta, place = offset, blend = ''dest-over''\<rparr>))"

definition placeOnTransparent ::
  "world \<Rightarrow> string \<Rightarrow> string \<Rightarrow> string \<Rightarrow> boundary \<Rightarrow> error + string \<times> composition" where
  "placeOnTransparent w baseFile backgroundFile outputFile transparentBoundary =
     bindE (metadata w baseFile) (\<lambda>baseMeta0.
     bindE (resizedBase baseMeta0 transparentBoundary) (\<lambda>baseMeta.
     bindE (metadata w backgroundFile) (\<lambda>backgroundMeta0.
     bindE (placeComposition baseMeta backgroundMeta0 transparentBoundary) (\<lambda>c.
       Inr (outputFile, c)))))"

text \<open>
  An encoding that was started and is not awaited ends after the function that started
  it has returned. When the library refuses it, nothing handles the rejected promise, and
  Node.js ends the process with that error.
\<close>

definition unawaited :: "string \<times> composition \<Rightarrow> world \<Rightarrow> error + world" where
  "unawaited started w =
     (case toFile w (fst started) (snd started) of
        Inl e \<Rightarrow> Inl (UnhandledRejection e)
      | Inr w' \<Rightarrow> Inr w')"


text \<open>
  The height that the specification gives the resized base of the embedded compositor,
  \<open>floor(baseWidth * boundary.height / boundary.width)\<close>, for the fractions as the
  catalog writes them. (The program reads the fraction \<open>q\<close> as the number \<open>fl q\<close>.)
\<close>

definition spec_resized_base_height :: "nat \<Rightarrow> rat \<Rightarrow> rat \<Rightarrow> int" where
  "spec_resized_base_height baseWidth h w = \<lfloor>rat_of_nat baseWidth * h / w\<rfloor>"

section \<open>The batch driver\<close>

text \<open>
  An entry of \<open>background/background-meta.json\<close>. The fields \<open>orientation\<close> and
  \<open>transparentBoundary\<close> may be absent (\<open>undefined\<close>).
\<close>

record backgroundMeta =
  filename :: string
  composite :: string
  orientation :: "string option"
  transparentBoundary :: "boundary option"

record options =
  type :: string
  output_dir :: string

text \<open>
  What the run takes from outside the program: the result of \<open>globSync\<close> for a
  pattern, the parsed catalog (\<open>None\<close> when reading or parsing it throws), the
  seeded generator, \<open>__dirname\<close>, \<open>path.join\<close> and \<open>path.relative\<close> of Node.js, and
  the height that the image library chooses when it resizes to a width.
\<close>

record env =
  globSync :: "string \<Rightarrow> string list"
  catalog :: "backgroundMeta list option"
  int32 :: "string \<Rightarrow> 32 word"
  dirname :: string
  path_join :: "string list \<Rightarrow> string"
  path_relative :: "string \<Rightarrow> string \<Rightarrow> string"
  auto_height :: "nat \<Rightarrow> size \<Rightarrow> nat"

definition pattern :: "options \<Rightarrow> string" where
  "pattern options = ''bases/'' @ type options @ ''/*.{png,jpg}''"

text \<open>Line 40: \<^verbatim>\<open>path.join(__dirname, options.output, subdir, outputFileName)\<close>.\<close>

definition outputFile :: "env \<Rightarrow> options \<Rightarrow> jsnum \<Rightarrow> string \<Rightarrow> string \<Rightarrow> string" where
  "outputFile env options trainRatio baseFile i =
     path_join env
       [dirname env, output_dir options,
        subdir (int32 env) (outputFileName baseFile i) trainRatio,
        outputFileName baseFile i]"

text \<open>
  Line 41: \<^verbatim>\<open>fs.existsSync(outputFile) && fs.statSync(baseFile).mtime <= fs.statSync(outputFile).mtime\<close>.
  The base file is only looked at when the output file exists.
\<close>

definition up_to_date :: "world \<Rightarrow> string \<Rightarrow> string \<Rightarrow> error + bool" where
  "up_to_date w baseFile outFile =
     (if existsSync w outFile
      then bindE (statSync w baseFile) (\<lambda>b.
           bindE (statSync w outFile) (\<lambda>out. Inr (mtime b \<le> mtime out)))
      else Inr False)"

definition skip_line :: "env \<Rightarrow> string \<Rightarrow> string" where
  "skip_line env outFile =
     ''Skip '' @ path_relative env (dirname env) outFile @ '' because it already exists''"

definition generate_line :: "env \<Rightarrow> string \<Rightarrow> string" where
  "generate_line env outFile = ''Generate '' @ path_relative env (dirname env) outFile"

text \<open>Line 53: \<^verbatim>\<open>const baseOrientation = width > height ? 'landscape' : 'portrait';\<close>\<close>

definition baseOrientation :: "size \<Rightarrow> string" where
  "baseOrientation baseMeta = (if fst baseMeta > snd baseMeta then ''landscape'' else ''portrait'')"

text \<open>
  The body of the inner loop, lines 27 to 58, for one base file and one catalog entry.
  The encoding that \<open>placeOnTransparent\<close> has started ends after the line \<open>Generate ...\<close>
  is written; the model lets it end there, before the loop looks at the next entry.
\<close>

definition process_pair ::
  "env \<Rightarrow> options \<Rightarrow> jsnum \<Rightarrow> string \<Rightarrow> string \<times> backgroundMeta \<Rightarrow> world \<Rightarrow> error + world" where
  "process_pair env options trainRatio baseFile entry w =
     (let i = fst entry;
          meta = snd entry;
          backgroundFile = path_join env [dirname env, ''background'', filename meta];
          outFile = outputFile env options trainRatio baseFile i
      in bindE (up_to_date w baseFile outFile) (\<lambda>skip.
           if skip then Inr (console_log (skip_line env outFile) w)
           else if composite meta = ''center'' then
             bindE (centerImage (auto_height env) w baseFile backgroundFile outFile) (\<lambda>w'.
               Inr (console_log (generate_line env outFile) w'))
           else if composite meta = ''embedded'' then
             bindE (metadata w baseFile) (\<lambda>baseMeta.
               if Some (baseOrientation baseMeta) \<noteq> orientation meta then Inr w
               else (case transparentBoundary meta of
                       None \<Rightarrow> Inl TypeError
                     | Some tb \<Rightarrow>
                         bindE (placeOnTransparent w baseFile backgroundFile outFile tb) (\<lambda>started.
                           unawaited started (console_log (generate_line env outFile) w))))
           else Inr (console_log (generate_line env outFile) w)))"

fun for_each :: "('a \<Rightarrow> world \<Rightarrow> error + world) \<Rightarrow> 'a list \<Rightarrow> world \<Rightarrow> error + world" where
  "for_each body [] w = Inr w"
| "for_each body (x # xs) w = bindE (body x w) (for_each body xs)"

text \<open>\<open>generate\<close>, lines 15 to 61.\<close>

definition generate :: "env \<Rightarrow> options \<Rightarrow> jsnum \<Rightarrow> world \<Rightarrow> error + world" where
  "generate env options trainRatio w =
     (let baseFiles = globSync env (pattern options)
      in if length baseFiles = 0
         then Inr (console_log (''Base image not found in '' @ pattern options @ ''.'') w)
         else (case catalog env of
                 None \<Rightarrow> Inl CatalogError
               | Some backgroundMetas \<Rightarrow>
                   for_each
                     (\<lambda>baseFile. for_each (process_pair env options trainRatio baseFile)
                                   (entries backgroundMetas))
                     baseFiles w))"

section \<open>The command line\<close>

text \<open>
  Lines 121 to 134 and 146. \<open>commander\<close> rejects a missing mandatory option and a value
  that is not among the \<open>choices\<close> of the option, and ends the process, before line 137
  runs. The directories made on lines 137 to 143 are no files of the world.
  The default \<open>trainRatio\<close> is the literal \<open>0.8\<close>.
\<close>

definition choices :: "string list" where
  "choices =
     [''cashcard'', ''driverslicense'', ''driverslicense_backside'',
      ''health_insurance_card'', ''mynumber'', ''sample'']"

definition parse_options :: "string option \<Rightarrow> string option \<Rightarrow> error + options" where
  "parse_options t out =
     (case t of
        None \<Rightarrow> Inl (MissingOption ''--type'')
      | Some ty \<Rightarrow>
          if ty \<notin> set choices then Inl (InvalidArgument ty)
          else (case out of
                  None \<Rightarrow> Inl (MissingOption ''--output'')
                | Some dir \<Rightarrow> Inr \<lparr>type = ty, output_dir = dir\<rparr>))"

definition main :: "env \<Rightarrow> string option \<Rightarrow> string option \<Rightarrow> world \<Rightarrow> error + world" where
  "main env t out w =
     bindE (parse_options t out) (\<lambda>options. generate env options (fl (4 / 5)) w)"

text \<open>
  The set of document types that the documentation of the program names: the type of
  \<open>options.type\<close> in the comment above \<open>generate\<close> (line 10) and the usage text of the
  option (line 122).
\<close>

definition documented_types :: "string list" where
  "documented_types =
     [''cashcard'', ''driverslicense'', ''driverslicense_backside'',
      ''health_insurance_card'', ''mynumber'']"

section \<open>Conditions on a pair of a base file and a catalog entry\<close>

text \<open>
  The output file exists and is not older than the base file (the test of line 41).
\<close>

definition fresh :: "(string \<rightharpoonup> stats) \<Rightarrow> string \<Rightarrow> string \<Rightarrow> bool" where
  "fresh fs baseFile outFile =
     (case (fs baseFile, fs outFile) of
        (Some b, Some out) \<Rightarrow> mtime b \<le> mtime out
      | _ \<Rightarrow> False)"

text \<open>
  A pair for which the loop body encodes nothing: the base file exists, and the output
  is fresh, or the entry asks for no compositor or for the embedded one with an
  orientation that is not the base image's.
\<close>

definition quiet ::
  "env \<Rightarrow> options \<Rightarrow> jsnum \<Rightarrow> (string \<rightharpoonup> stats) \<Rightarrow> string \<Rightarrow> string \<times> backgroundMeta \<Rightarrow> bool" where
  "quiet env options trainRatio fs baseFile entry =
     (case fs baseFile of
        None \<Rightarrow> False
      | Some b \<Rightarrow>
          fresh fs baseFile (outputFile env options trainRatio baseFile (fst entry))
          \<or> (composite (snd entry) \<noteq> ''center''
              \<and> (composite (snd entry) = ''embedded'' \<longrightarrow>
                    (case image b of
                       None \<Rightarrow> False
                     | Some s \<Rightarrow> Some (baseOrientation s) \<noteq> orientation (snd entry)))))"

section \<open>Example inputs\<close>

text \<open>
  A catalog of three entries, a base image of 400 by 200 pixels and backgrounds of 1000 by
  800 and of 600 by 1200 pixels, with \<open>path.join\<close> and \<open>path.relative\<close> on plain
  segments. The boundary is \<open>{left: 0.1, top: 0.1, width: 0.5, height: 0.3}\<close>.
  The image library resizes three backgrounds to a width in the examples: the one of 600
  by 1200 pixels to the width 480, which gives 480 by 960, a square one of 10 by 10
  pixels to the width 3, which gives 3 by 3, and one of 10 by 5 pixels to the width 13,
  which gives 13 by 6. \<open>example_heights\<close> holds these three heights.
\<close>

definition example_heights :: "nat \<Rightarrow> size \<Rightarrow> nat" where
  "example_heights w s =
     (if w = 480 \<and> s = (600, 1200) then 960
      else if w = 3 \<and> s = (10, 10) then 3
      else if w = 13 \<and> s = (10, 5) then 6
      else 1)"

definition example_boundary :: boundary where
  "example_boundary =
     \<lparr>left = fl (1 / 10), top = fl (1 / 10), width = fl (1 / 2), height = fl (3 / 10)\<rparr>"

definition example_center :: backgroundMeta where
  "example_center =
     \<lparr>filename = ''wood.jpg'', composite = ''center'', orientation = None,
      transparentBoundary = None\<rparr>"

definition example_embedded :: backgroundMeta where
  "example_embedded =
     \<lparr>filename = ''frame.png'', composite = ''embedded'', orientation = Some ''portrait'',
      transparentBoundary = Some example_boundary\<rparr>"

definition example_other :: backgroundMeta where
  "example_other =
     \<lparr>filename = ''desk.jpg'', composite = ''tiled'', orientation = None,
      transparentBoundary = None\<rparr>"

definition example_catalog :: "backgroundMeta list" where
  "example_catalog = [example_center, example_embedded, example_other]"

fun join_segments :: "string list \<Rightarrow> string" where
  "join_segments [] = ''.''"
| "join_segments [x] = x"
| "join_segments (x # xs) = x @ ''/'' @ join_segments xs"

definition example_env :: env where
  "example_env =
     \<lparr>globSync = (\<lambda>p. if p = ''bases/sample/*.{png,jpg}'' then [''bases/sample/a.png''] else []),
      catalog = Some example_catalog,
      int32 = (\<lambda>_. 7),
      dirname = ''/app'',
      path_join = join_segments,
      path_relative = (\<lambda>from to. drop (length from + 1) to),
      auto_height = example_heights\<rparr>"

definition example_options :: options where
  "example_options = \<lparr>type = ''sample'', output_dir = ''out''\<rparr>"

definition example_files :: "int \<Rightarrow> string \<rightharpoonup> stats" where
  "example_files t =
     [''bases/sample/a.png'' \<mapsto> \<lparr>mtime = t, image = Some (400, 200)\<rparr>,
      ''/app/background/wood.jpg'' \<mapsto> \<lparr>mtime = 0, image = Some (600, 1200)\<rparr>,
      ''/app/background/frame.png'' \<mapsto> \<lparr>mtime = 0, image = Some (1000, 800)\<rparr>]"

text \<open>The world at time 50, with the base file last modified at time \<open>t\<close>.\<close>

definition example_world :: "int \<Rightarrow> world" where
  "example_world t = \<lparr>files = example_files t, now = 50, console = [], encoded = []\<rparr>"


section \<open>The state between two runs\<close>

text \<open>
  The base files of \<open>B\<close> exist and none is newer than the clock, and for every pair of
  \<open>S\<close> the loop body would encode nothing.
\<close>

definition settled ::
  "env \<Rightarrow> options \<Rightarrow> jsnum \<Rightarrow> string set \<Rightarrow> (string \<times> string \<times> backgroundMeta) set \<Rightarrow> world \<Rightarrow> bool" where
  "settled env options trainRatio B S w =
     ((\<forall>b\<in>B. case files w b of None \<Rightarrow> False | Some st \<Rightarrow> mtime st \<le> now w)
      \<and> (\<forall>p\<in>S. fst p \<in> B \<and> quiet env options trainRatio (files w) (fst p) (snd p)))"

section \<open>Sequencing with errors\<close>

lemma bindE_Inl [simp]: "bindE (Inl e) f = Inl e"
  by (simp add: bindE_def)

lemma bindE_Inr [simp]: "bindE (Inr x) f = f x"
  by (simp add: bindE_def)

lemma bindE_eq_Inr: "bindE m f = Inr y \<longleftrightarrow> (\<exists>x. m = Inr x \<and> f x = Inr y)"
  by (cases m) simp_all

section \<open>The bucket of a name\<close>

lemma js_rem_nonneg: "0 \<le> a \<Longrightarrow> js_rem a 10 = a mod 10"
  by (simp add: js_rem_def sgn_if)

lemma tenths:
  "js_div (num 0) (num 10) = Fin 0"
  "js_div (num 1) (num 10) = Fin (3602879701896397 / 36028797018963968)"
  "js_div (num 2) (num 10) = Fin (3602879701896397 / 18014398509481984)"
  "js_div (num 3) (num 10) = Fin (5404319552844595 / 18014398509481984)"
  "js_div (num 4) (num 10) = Fin (3602879701896397 / 9007199254740992)"
  "js_div (num 5) (num 10) = Fin (1 / 2)"
  "js_div (num 6) (num 10) = Fin (5404319552844595 / 9007199254740992)"
  "js_div (num 7) (num 10) = Fin (3152519739159347 / 4503599627370496)"
  "js_div (num 8) (num 10) = Fin (3602879701896397 / 4503599627370496)"
  "js_div (num 9) (num 10) = Fin (8106479329266893 / 9007199254740992)"
  by code_simp+

lemma tenth_in_unit:
  assumes "0 \<le> k" and "k < 10"
  shows "\<exists>v. js_div (num k) (num 10) = Fin v \<and> 0 \<le> v \<and> v < 1
             \<and> \<bar>v - of_int k / 10\<bar> \<le> 1 / 2 ^ 54"
proof -
  from assms have "k = 0 \<or> k = 1 \<or> k = 2 \<or> k = 3 \<or> k = 4 \<or> k = 5 \<or> k = 6 \<or> k = 7 \<or> k = 8 \<or> k = 9"
    by arith
  then show ?thesis
  proof (elim disjE)
    assume "k = 0"
    then show ?thesis
      by (intro exI [of _ "0"]) (simp add: tenths)
  next
    assume "k = 1"
    then show ?thesis
      by (intro exI [of _ "3602879701896397 / 36028797018963968"]) (simp add: tenths)
  next
    assume "k = 2"
    then show ?thesis
      by (intro exI [of _ "3602879701896397 / 18014398509481984"]) (simp add: tenths)
  next
    assume "k = 3"
    then show ?thesis
      by (intro exI [of _ "5404319552844595 / 18014398509481984"]) (simp add: tenths)
  next
    assume "k = 4"
    then show ?thesis
      by (intro exI [of _ "3602879701896397 / 9007199254740992"]) (simp add: tenths)
  next
    assume "k = 5"
    then show ?thesis
      by (intro exI [of _ "1 / 2"]) (simp add: tenths)
  next
    assume "k = 6"
    then show ?thesis
      by (intro exI [of _ "5404319552844595 / 9007199254740992"]) (simp add: tenths)
  next
    assume "k = 7"
    then show ?thesis
      by (intro exI [of _ "3152519739159347 / 4503599627370496"]) (simp add: tenths)
  next
    assume "k = 8"
    then show ?thesis
      by (intro exI [of _ "3602879701896397 / 4503599627370496"]) (simp add: tenths)
  next
    assume "k = 9"
    then show ?thesis
      by (intro exI [of _ "8106479329266893 / 9007199254740992"]) (simp add: tenths)
  qed
qed

text \<open>
  C1. The bucket of a name: the generator is seeded with the name and gives a 32-bit
  signed integer; the absolute value of that integer modulo 10, divided by 10, is a
  number \<open>v\<close> with \<open>0 \<le> v < 1\<close> (the binary64 quotient, within \<open>2^-54\<close> of the exact
  tenth); the bucket is \<open>train\<close> if \<open>v\<close> is strictly less than the ratio and \<open>test\<close>
  otherwise. This holds for every finite ratio, so for every ratio between 0 and 1.
\<close>

theorem split_assignment:
  "\<exists>v. js_div (num (\<bar>sint (int32 env name)\<bar> mod 10)) (num 10) = Fin v
       \<and> 0 \<le> v \<and> v < 1
       \<and> \<bar>v - of_int (\<bar>sint (int32 env name)\<bar> mod 10) / 10\<bar> \<le> 1 / 2 ^ 54
       \<and> subdir (int32 env) name (Fin r) = (if v < r then ''train'' else ''test'')"
proof -
  let ?k = "\<bar>sint (int32 env name)\<bar> mod 10"
  have "0 \<le> ?k" and "?k < 10"
    by simp_all
  then obtain v where v: "js_div (num ?k) (num 10) = Fin v" "0 \<le> v" "v < 1"
      "\<bar>v - of_int ?k / 10\<bar> \<le> 1 / 2 ^ 54"
    using tenth_in_unit by blast
  have "js_rem (seed (int32 env) name) 10 = ?k"
    by (simp add: seed_def js_rem_nonneg)
  then have "subdir (int32 env) name (Fin r) = (if v < r then ''train'' else ''test'')"
    by (simp add: subdir_def v(1))
  with v show ?thesis
    by blast
qed

theorem split_assignment_witness:
  "subdir (\<lambda>_. - 2147483648) ''license_01_3.jpg'' (Fin (4 / 5)) = ''test''
   \<and> subdir (\<lambda>_. 7) ''license_01_3.jpg'' (Fin (4 / 5)) = ''train''"
proof -
  define e :: env where
    "e = \<lparr>globSync = (\<lambda>_. []), catalog = None, int32 = (\<lambda>_. - 2147483648), dirname = [],
          path_join = concat, path_relative = (\<lambda>_ p. p), auto_height = (\<lambda>_ _. 1)\<rparr>"
  have 1: "\<bar>sint (int32 e ''license_01_3.jpg'')\<bar> mod 10 = 8"
    by (simp add: e_def)
  have 2: "\<bar>sint (int32 (e\<lparr>int32 := \<lambda>_. 7\<rparr>) ''license_01_3.jpg'')\<bar> mod 10 = 7"
    by (simp add: e_def)
  from split_assignment [of e "''license_01_3.jpg''" "4 / 5"]
  have a: "subdir (int32 e) ''license_01_3.jpg'' (Fin (4 / 5)) = ''test''"
    unfolding 1 by (auto simp: tenths split: if_splits)
  from split_assignment [of "e\<lparr>int32 := \<lambda>_. 7\<rparr>" "''license_01_3.jpg''" "4 / 5"]
  have b: "subdir (int32 (e\<lparr>int32 := \<lambda>_. 7\<rparr>)) ''license_01_3.jpg'' (Fin (4 / 5)) = ''train''"
    unfolding 2 by (auto simp: tenths split: if_splits)
  from a b show ?thesis
    by (simp add: e_def)
qed

section \<open>The name of an output file\<close>

lemma basename_of_file:
  assumes "CHR ''/'' \<notin> set name" and "name \<noteq> []"
  shows "basename (dir @ ''/'' @ name) = name"
proof -
  have "rev name \<noteq> []"
    using assms by simp
  then obtain c cs where cs: "rev name = c # cs"
    by (cases "rev name") auto
  then have "c \<in> set name"
    by (metis list.set_intros(1) set_rev)
  then have "c \<noteq> CHR ''/''"
    using assms by auto
  then have "dropWhile (\<lambda>c. c = CHR ''/'') (rev (dir @ ''/'' @ name)) = rev name @ ''/'' @ rev dir"
    by (simp add: cs)
  moreover have "takeWhile (\<lambda>c. c \<noteq> CHR ''/'') (rev name @ ''/'' @ rev dir) = rev name"
    using assms by (auto simp: takeWhile_tail)
  ultimately show ?thesis
    by (simp add: basename_def)
qed

lemma path_parse_name_stem:
  assumes "stem \<noteq> []" and "CHR ''/'' \<notin> set stem"
    and "ext \<noteq> []" and "CHR ''.'' \<notin> set ext" and "CHR ''/'' \<notin> set ext"
  shows "path_parse_name (dir @ ''/'' @ stem @ ''.'' @ ext) = stem"
proof -
  have b: "basename (dir @ ''/'' @ (stem @ ''.'' @ ext)) = stem @ ''.'' @ ext"
    using assms by (intro basename_of_file) auto
  have e: "takeWhile (\<lambda>c. c \<noteq> CHR ''.'') (rev (stem @ ''.'' @ ext)) = rev ext"
    using assms by (auto simp: takeWhile_tail)
  have "stem @ ''.'' @ ext \<noteq> ''..''"
    using assms by (cases stem; cases ext) auto
  then show ?thesis
    using assms b e by (simp add: path_parse_name_def Let_def)
qed

lemma entries_nth:
  "i < length xs \<Longrightarrow> entries xs ! i = (decimal i, xs ! i)"
  by (simp add: entries_def)

lemma subdir_cases: "subdir g n r = ''train'' \<or> subdir g n r = ''test''"
  by (simp add: subdir_def)

lemma digits:
  "digit 0 = CHR ''0''" "digit (Suc 0) = CHR ''1''" "digit 2 = CHR ''2''" "digit 3 = CHR ''3''"
  "digit 4 = CHR ''4''" "digit 5 = CHR ''5''" "digit 6 = CHR ''6''" "digit 7 = CHR ''7''"
  "digit 8 = CHR ''8''" "digit 9 = CHR ''9''"
  by code_simp+

lemma digit_cases:
  assumes "d < 10"
  shows "digit d \<in> set ''0123456789''" and "digit_value (digit d) = d"
    and "digit d = CHR ''0'' \<longleftrightarrow> d = 0"
proof -
  from assms have "d = 0 \<or> d = 1 \<or> d = 2 \<or> d = 3 \<or> d = 4 \<or> d = 5 \<or> d = 6 \<or> d = 7 \<or> d = 8 \<or> d = 9"
    by arith
  then show "digit d \<in> set ''0123456789''" and "digit_value (digit d) = d"
    and "digit d = CHR ''0'' \<longleftrightarrow> d = 0"
    by (auto simp: digits digit_value_def)
qed

text \<open>The key of an array index is its decimal numeral.\<close>

lemma decimal_numeral: "spec_index_numeral (decimal n) n"
proof (induction n rule: decimal.induct)
  case (1 n)
  show ?case
  proof (cases "10 \<le> n")
    case False
    then have "decimal n = [digit n]" and "n < 10"
      by (simp_all add: decimal.simps [of n])
    then show ?thesis
      using digit_cases [of n] by (auto simp: spec_index_numeral_def)
  next
    case True
    let ?q = "n div 10" and ?r = "n mod 10"
    from True have d: "decimal n = decimal ?q @ [digit ?r]"
      by (simp add: decimal.simps [of n])
    from "1.IH" [OF True] have ih: "decimal ?q \<noteq> []" "set (decimal ?q) \<subseteq> set ''0123456789''"
      "hd (decimal ?q) = CHR ''0'' \<longrightarrow> decimal ?q = ''0''"
      "foldl (\<lambda>a c. 10 * a + digit_value c) 0 (decimal ?q) = ?q"
      by (simp_all add: spec_index_numeral_def)
    have r: "?r < 10"
      by simp
    have "hd (decimal n) \<noteq> CHR ''0''"
    proof
      assume "hd (decimal n) = CHR ''0''"
      then have "hd (decimal ?q) = CHR ''0''"
        using ih(1) by (simp add: d)
      with ih(3) have "decimal ?q = ''0''"
        by simp
      with ih(4) have "?q = 0"
        by (simp add: digit_value_def)
      with True show False
        by simp
    qed
    moreover have "foldl (\<lambda>a c. 10 * a + digit_value c) 0 (decimal n) = n"
      using ih(4) digit_cases(2) [OF r] by (simp add: d)
    moreover have "set (decimal n) \<subseteq> set ''0123456789''"
      using ih(2) digit_cases(1) [OF r] by (simp add: d)
    ultimately show ?thesis
      by (simp add: spec_index_numeral_def d)
  qed
qed

lemma decimal_3_12: "decimal 3 = ''3''" "decimal 12 = ''12''"
  by code_simp+

lemma license_name:
  "outputFileName ''bases/driverslicense/license_01.png'' i = ''license_01_'' @ i @ ''.jpg''"
  by (simp add: outputFileName_def path_parse_name_def basename_def)

text \<open>
  C7. The output file of a base file \<open>dir/stem.ext\<close> and the catalog entry at position
  \<open>i\<close> is named \<open>stem_i.jpg\<close>, where \<open>i\<close> stands for the decimal numeral of the
  position, which is the key that the loop gets for the entry; \<open>license_01.png\<close> and the
  entry at position 3 give \<open>license_01_3.jpg\<close>, the entry at position 12 gives
  \<open>license_01_12.jpg\<close>; the path of the output file is that name under the directory
  \<open>train\<close> or \<open>test\<close> that the split assigns to the name.
\<close>

theorem output_naming:
  assumes "stem \<noteq> []" and "CHR ''/'' \<notin> set stem"
    and "ext \<noteq> []" and "CHR ''.'' \<notin> set ext" and "CHR ''/'' \<notin> set ext"
    and "i < length backgroundMetas"
  shows "(\<exists>index. spec_index_numeral index i
            \<and> fst (entries backgroundMetas ! i) = index
            \<and> outputFileName (dir @ ''/'' @ stem @ ''.'' @ ext) (fst (entries backgroundMetas ! i))
                = stem @ ''_'' @ index @ ''.jpg'')
       \<and> (3 < length backgroundMetas \<longrightarrow>
            outputFileName ''bases/driverslicense/license_01.png'' (fst (entries backgroundMetas ! 3))
              = ''license_01_3.jpg'')
       \<and> (12 < length backgroundMetas \<longrightarrow>
            outputFileName ''bases/driverslicense/license_01.png'' (fst (entries backgroundMetas ! 12))
              = ''license_01_12.jpg'')
       \<and> (\<exists>bucket. (bucket = ''train'' \<or> bucket = ''test'')
             \<and> bucket = subdir (int32 env) (outputFileName baseFile j) trainRatio
             \<and> outputFile env options trainRatio baseFile j
                 = path_join env [dirname env, output_dir options, bucket,
                                  outputFileName baseFile j])"
proof -
  have "outputFileName (dir @ ''/'' @ stem @ ''.'' @ ext) (fst (entries backgroundMetas ! i))
          = stem @ ''_'' @ decimal i @ ''.jpg''"
    using assms path_parse_name_stem [of stem ext dir]
    by (simp add: outputFileName_def entries_nth)
  then have "\<exists>index. spec_index_numeral index i
            \<and> fst (entries backgroundMetas ! i) = index
            \<and> outputFileName (dir @ ''/'' @ stem @ ''.'' @ ext) (fst (entries backgroundMetas ! i))
                = stem @ ''_'' @ index @ ''.jpg''"
    using assms(6) decimal_numeral [of i] by (intro exI [of _ "decimal i"]) (simp add: entries_nth)
  moreover have "outputFileName ''bases/driverslicense/license_01.png'' (fst (entries backgroundMetas ! 3))
              = ''license_01_3.jpg''" if "3 < length backgroundMetas"
    using that by (simp add: entries_nth decimal_3_12 license_name)
  moreover have "outputFileName ''bases/driverslicense/license_01.png'' (fst (entries backgroundMetas ! 12))
              = ''license_01_12.jpg''" if "12 < length backgroundMetas"
    using that by (simp add: entries_nth decimal_3_12 license_name)
  moreover have "\<exists>bucket. (bucket = ''train'' \<or> bucket = ''test'')
             \<and> bucket = subdir (int32 env) (outputFileName baseFile j) trainRatio
             \<and> outputFile env options trainRatio baseFile j
                 = path_join env [dirname env, output_dir options, bucket,
                                  outputFileName baseFile j]"
    using subdir_cases [of "int32 env" "outputFileName baseFile j" trainRatio]
    by (simp add: outputFile_def)
  ultimately show ?thesis
    by blast
qed

text \<open>
  A catalog of thirteen entries and the base file \<open>bases/cashcard/card.front.jpg\<close>: the
  last entry, at position 12, gives \<open>card.front_12.jpg\<close> and \<open>license_01_12.jpg\<close>, the
  one at position 3 gives \<open>license_01_3.jpg\<close>.
\<close>

theorem output_naming_witness:
  "outputFileName ''bases/cashcard/card.front.jpg'' (fst (entries (replicate 13 example_other) ! 12))
     = ''card.front_12.jpg''
   \<and> spec_index_numeral ''12'' 12
   \<and> outputFileName ''bases/driverslicense/license_01.png''
        (fst (entries (replicate 13 example_other) ! 3)) = ''license_01_3.jpg''
   \<and> outputFileName ''bases/driverslicense/license_01.png''
        (fst (entries (replicate 13 example_other) ! 12)) = ''license_01_12.jpg''"
proof -
  have k: "fst (entries (replicate 13 example_other) ! 12) = ''12''"
    by (simp add: entries_nth decimal_3_12)
  from output_naming [of "''card.front''" "''jpg''" 12 "replicate 13 example_other" "''bases/cashcard''"]
  show ?thesis
    by (simp add: k)
qed

section \<open>Rounding to binary64\<close>











section \<open>The file system and the loop body\<close>

subsection \<open>Reading the file system\<close>

lemma metadata_Some:
  "files w p = Some f \<Longrightarrow> image f = Some s \<Longrightarrow> metadata w p = Inr s"
  by (simp add: metadata_def)

lemma metadata_Inr:
  "metadata w p = Inr s \<longleftrightarrow> (\<exists>f. files w p = Some f \<and> image f = Some s)"
  by (auto simp: metadata_def split: option.splits)

lemma up_to_date_base:
  "files w baseFile = Some b \<Longrightarrow>
   up_to_date w baseFile outFile = Inr (fresh (files w) baseFile outFile)"
  by (cases "files w outFile") (simp_all add: up_to_date_def existsSync_def statSync_def fresh_def)

lemma up_to_date_absent:
  "files w outFile = None \<Longrightarrow> up_to_date w baseFile outFile = Inr False"
  by (simp add: up_to_date_def existsSync_def)

lemma up_to_date_True:
  "up_to_date w baseFile outFile = Inr True \<longleftrightarrow> fresh (files w) baseFile outFile"
  by (auto simp: up_to_date_def existsSync_def statSync_def fresh_def bindE_def
      split: option.splits)

lemma console_log_simps [simp]:
  "files (console_log l w) = files w"
  "now (console_log l w) = now w"
  "encoded (console_log l w) = encoded w"
  "console (console_log l w) = console w @ [l]"
  by (simp_all add: console_log_def)

lemma write_image_simps [simp]:
  "files (write_image w p s) = (files w)(p \<mapsto> \<lparr>mtime = now w, image = Some s\<rparr>)"
  "now (write_image w p s) = now w + 1"
  "encoded (write_image w p s) = encoded w @ [p]"
  "console (write_image w p s) = console w"
  by (simp_all add: write_image_def)

subsection \<open>What the compositors write\<close>

lemma toFile_Inr:
  "toFile w p c = Inr w' \<Longrightarrow> w' = write_image w p (canvas c)"
  by (simp add: toFile_def split: if_splits)

lemma centerImage_Inr:
  assumes "centerImage ah w baseFile backgroundFile outFile = Inr w'"
  shows "\<exists>s. w' = write_image w outFile s"
proof -
  from assms obtain c where "toFile w outFile c = Inr w'"
    by (auto simp: centerImage_def bindE_eq_Inr)
  then show ?thesis
    by (blast dest: toFile_Inr)
qed

lemma placeOnTransparent_Inr:
  "placeOnTransparent w baseFile backgroundFile outFile tb = Inr started \<Longrightarrow> fst started = outFile"
  by (auto simp: placeOnTransparent_def bindE_eq_Inr)

lemma unawaited_Inr:
  assumes "unawaited started w = Inr w'"
  shows "\<exists>s. w' = write_image w (fst started) s"
proof -
  from assms have "toFile w (fst started) (snd started) = Inr w'"
    by (simp add: unawaited_def split: sum.splits)
  then show ?thesis
    by (blast dest: toFile_Inr)
qed

lemma write_image_console_log:
  "write_image (console_log l w) p s = console_log l (write_image w p s)"
  by (simp add: write_image_def console_log_def)

lemma embedded_step_Inr:
  assumes "bindE (placeOnTransparent w baseFile backgroundFile outFile tb)
             (\<lambda>started. unawaited started (console_log l w)) = Inr w'"
  shows "\<exists>s. w' = console_log l (write_image w outFile s)"
proof -
  from assms obtain started
    where 1: "placeOnTransparent w baseFile backgroundFile outFile tb = Inr started"
      and 2: "unawaited started (console_log l w) = Inr w'"
    by (auto simp: bindE_eq_Inr)
  from unawaited_Inr [OF 2] placeOnTransparent_Inr [OF 1] show ?thesis
    by (auto simp: write_image_console_log)
qed

lemma integer_of_Some: "integer_of x = Some n \<longleftrightarrow> x = num n"
  by (cases x) (auto simp: integer_of_def num_def)

lemma positive_integer_Inr:
  "positive_integer what x = Inr n \<longleftrightarrow> (0 < n \<and> x = num (int n))"
proof -
  have "positive_integer what x = Inr n \<longleftrightarrow> (\<exists>k. integer_of x = Some k \<and> 0 < k \<and> n = nat k)"
    by (auto simp: positive_integer_def split: option.splits)
  also have "\<dots> \<longleftrightarrow> (0 < n \<and> x = num (int n))"
    by (auto simp: integer_of_Some)
  finally show ?thesis .
qed

lemma resize_to_Inr:
  "resize_to a b = Inr s \<longleftrightarrow> (0 < fst s \<and> 0 < snd s \<and> a = num (int (fst s)) \<and> b = num (int (snd s)))"
  by (cases s) (auto simp: resize_to_def bindE_eq_Inr positive_integer_Inr)


subsection \<open>The loop body, case by case\<close>

lemma process_pair_fresh:
  assumes "fresh (files w) baseFile (outputFile env options r baseFile i)"
  shows "process_pair env options r baseFile (i, meta) w
           = Inr (console_log (skip_line env (outputFile env options r baseFile i)) w)"
proof -
  have "up_to_date w baseFile (outputFile env options r baseFile i) = Inr True"
    using assms by (simp add: up_to_date_True)
  then show ?thesis
    by (simp add: process_pair_def)
qed

lemma process_pair_center:
  assumes "up_to_date w baseFile (outputFile env options r baseFile i) = Inr False"
    and "composite meta = ''center''"
  shows "process_pair env options r baseFile (i, meta) w
           = bindE (centerImage (auto_height env) w baseFile
                      (path_join env [dirname env, ''background'', filename meta])
                      (outputFile env options r baseFile i))
                   (\<lambda>w'. Inr (console_log (generate_line env (outputFile env options r baseFile i)) w'))"
  using assms by (simp add: process_pair_def Let_def)

lemma process_pair_mismatch:
  assumes "up_to_date w baseFile (outputFile env options r baseFile i) = Inr False"
    and "composite meta = ''embedded''"
    and "metadata w baseFile = Inr s"
    and "Some (baseOrientation s) \<noteq> orientation meta"
  shows "process_pair env options r baseFile (i, meta) w = Inr w"
  using assms by (simp add: process_pair_def Let_def)

lemma process_pair_other:
  assumes "up_to_date w baseFile (outputFile env options r baseFile i) = Inr False"
    and "composite meta \<noteq> ''center''" and "composite meta \<noteq> ''embedded''"
  shows "process_pair env options r baseFile (i, meta) w
           = Inr (console_log (generate_line env (outputFile env options r baseFile i)) w)"
  using assms by (simp add: process_pair_def Let_def)

lemma process_pair_embedded:
  assumes "up_to_date w baseFile (outputFile env options r baseFile i) = Inr False"
    and "composite meta \<noteq> ''center''" and "composite meta = ''embedded''"
    and "metadata w baseFile = Inr s"
    and "Some (baseOrientation s) = orientation meta"
    and "transparentBoundary meta = Some tb"
  shows "process_pair env options r baseFile (i, meta) w
           = bindE (placeOnTransparent w baseFile
                      (path_join env [dirname env, ''background'', filename meta])
                      (outputFile env options r baseFile i) tb)
                   (\<lambda>started. unawaited started
                      (console_log (generate_line env (outputFile env options r baseFile i)) w))"
  using assms by (simp add: process_pair_def Let_def)

text \<open>
  Every outcome of the loop body when the test of line 41 is false: at most one file is
  written, the output file, and no line \<open>Skip ...\<close>.
\<close>

lemma process_pair_stale:
  assumes u: "up_to_date w baseFile (outputFile env options r baseFile i) = Inr False"
    and step: "process_pair env options r baseFile (i, meta) w = Inr w'"
  shows "w' = w
       \<or> w' = console_log (generate_line env (outputFile env options r baseFile i)) w
       \<or> (\<exists>s. w' = console_log (generate_line env (outputFile env options r baseFile i))
                       (write_image w (outputFile env options r baseFile i) s))"
proof -
  let ?out = "outputFile env options r baseFile i"
  consider (center) "composite meta = ''center''"
    | (embedded) "composite meta \<noteq> ''center''" "composite meta = ''embedded''"
    | (other) "composite meta \<noteq> ''center''" "composite meta \<noteq> ''embedded''"
    by blast
  then show ?thesis
  proof cases
    case center
    with step u obtain w'' where "centerImage (auto_height env) w baseFile
        (path_join env [dirname env, ''background'', filename meta]) ?out = Inr w''"
      and "w' = console_log (generate_line env ?out) w''"
      by (auto simp: process_pair_center bindE_eq_Inr)
    then show ?thesis
      by (auto dest!: centerImage_Inr)
  next
    case embedded
    from step u embedded obtain s where s: "metadata w baseFile = Inr s"
      by (auto simp: process_pair_def bindE_eq_Inr Let_def)
    show ?thesis
    proof (cases "Some (baseOrientation s) = orientation meta")
      case False
      with step u embedded s show ?thesis
        by (simp add: process_pair_mismatch)
    next
      case True
      with step u embedded s obtain tb where "transparentBoundary meta = Some tb"
        by (cases "transparentBoundary meta") (auto simp: process_pair_def Let_def)
      from step [unfolded process_pair_embedded [OF u embedded s True this]]
      show ?thesis
        by (auto dest!: embedded_step_Inr)
    qed
  next
    case other
    with step u show ?thesis
      by (simp add: process_pair_other)
  qed
qed

text \<open>Every outcome of the loop body: at most one file is written, the output file.\<close>

lemma process_pair_Inr:
  assumes "process_pair env options r baseFile (i, meta) w = Inr w'"
  shows "w' = console_log (skip_line env (outputFile env options r baseFile i)) w
       \<or> w' = w
       \<or> w' = console_log (generate_line env (outputFile env options r baseFile i)) w
       \<or> (\<exists>s. w' = console_log (generate_line env (outputFile env options r baseFile i))
                       (write_image w (outputFile env options r baseFile i) s))"
proof -
  let ?out = "outputFile env options r baseFile i"
  from assms obtain skip where u: "up_to_date w baseFile ?out = Inr skip"
    by (auto simp: process_pair_def bindE_eq_Inr Let_def)
  show ?thesis
  proof (cases skip)
    case True
    with u assms show ?thesis
      by (simp add: process_pair_def Let_def)
  next
    case False
    with u have "up_to_date w baseFile ?out = Inr False"
      by simp
    from process_pair_stale [OF this assms] show ?thesis
      by blast
  qed
qed

section \<open>The batch driver\<close>

text \<open>
  C9. When the pattern of the document type matches no file, \<open>generate\<close> returns
  without an error; it has written one line to the console and nothing else: no file
  is written, the catalog is not read.
\<close>

theorem empty_glob:
  assumes "globSync env (pattern options) = []"
  shows "generate env options trainRatio w
           = Inr (w\<lparr>console := console w
                     @ [''Base image not found in bases/'' @ type options @ ''/*.{png,jpg}.'']\<rparr>)"
  using assms by (simp add: generate_def console_log_def pattern_def)

text \<open>
  C10. For an entry whose \<open>composite\<close> is neither \<open>center\<close> nor \<open>embedded\<close>, when the
  test of line 41 is false, the loop body returns without an error; it has written the
  line \<open>Generate ...\<close> to the console and nothing else, so no compositor has run and no
  file is written.
\<close>

theorem unknown_composite:
  assumes "composite meta \<noteq> ''center''" and "composite meta \<noteq> ''embedded''"
    and "up_to_date w baseFile (outputFile env options trainRatio baseFile i) = Inr False"
  shows "process_pair env options trainRatio baseFile (i, meta) w
           = Inr (w\<lparr>console := console w
                     @ [''Generate '' @ path_relative env (dirname env)
                                         (outputFile env options trainRatio baseFile i)]\<rparr>)"
  using assms by (simp add: process_pair_other console_log_def generate_line_def)

lemma for_each_step:
  "body x w = Inr w' \<Longrightarrow> for_each body (x # xs) w = for_each body xs w'"
  by simp

text \<open>
  C5. For an entry with \<open>composite\<close> \<open>embedded\<close> and a base image of width \<open>bw\<close> and height
  \<open>bh\<close>, the orientation of the base is \<open>landscape\<close> if \<open>bw > bh\<close> and \<open>portrait\<close>
  otherwise; when the entry declares another orientation (or none), the loop body
  returns without an error, no file is written, and the loop goes on with the remaining
  entries. (The world is unchanged, but for the line \<open>Skip ...\<close> when the test of line 41
  is true.)
\<close>

theorem orientation_guard:
  assumes "composite meta = ''embedded''"
    and "files w baseFile = Some b" and "image b = Some (bw, bh)"
    and "orientation meta \<noteq> Some (if bw > bh then ''landscape'' else ''portrait'')"
  shows "baseOrientation (bw, bh) = (if bw > bh then ''landscape'' else ''portrait'')
       \<and> (\<exists>w'. process_pair env options trainRatio baseFile (i, meta) w = Inr w'
              \<and> files w' = files w \<and> encoded w' = encoded w \<and> now w' = now w
              \<and> w' = (if fresh (files w) baseFile (outputFile env options trainRatio baseFile i)
                       then console_log (skip_line env (outputFile env options trainRatio baseFile i)) w
                       else w)
              \<and> for_each (process_pair env options trainRatio baseFile) ((i, meta) # rest) w
                  = for_each (process_pair env options trainRatio baseFile) rest w')"
proof -
  let ?out = "outputFile env options trainRatio baseFile i"
  let ?w' = "if fresh (files w) baseFile ?out then console_log (skip_line env ?out) w else w"
  have o: "baseOrientation (bw, bh) = (if bw > bh then ''landscape'' else ''portrait'')"
    by (simp add: baseOrientation_def)
  have m: "metadata w baseFile = Inr (bw, bh)"
    using assms by (simp add: metadata_Some)
  have u: "up_to_date w baseFile ?out = Inr (fresh (files w) baseFile ?out)"
    using assms by (simp add: up_to_date_base)
  have "process_pair env options trainRatio baseFile (i, meta) w = Inr ?w'"
  proof (cases "fresh (files w) baseFile ?out")
    case True
    then show ?thesis
      by (simp add: process_pair_fresh)
  next
    case False
    with u assms(1,4) m o show ?thesis
      by (simp add: process_pair_mismatch [where s = "(bw, bh)"])
  qed
  moreover from this
  have "for_each (process_pair env options trainRatio baseFile) ((i, meta) # rest) w
          = for_each (process_pair env options trainRatio baseFile) rest ?w'"
    by (rule for_each_step)
  ultimately show ?thesis
    using o by (intro conjI exI [of _ ?w']) simp_all
qed

subsection \<open>The split does not depend on hidden state\<close>

lemma seeded_int32_eq:
  "seeded_int32 pool name = word_of_nat (fst (arc4_g 4 (ARC4 (mixkey name []))))"
  by (simp add: seeded_int32_def seedrandom_def prng_int32_def Let_def)

lemma mixkey_short: "mixkey ''a_0.jpg'' [] = [97, 95, 48, 46, 106, 112, 103]"
  by (simp add: mixkey_def assign_at_def Let_def)

text \<open>
  C2. The library of the generator has a hidden global state, its entropy pool, which
  every call of \<open>seedrandom\<close> changes. The bucket does not depend on it. With the
  generator that line 34 makes, whatever the pool holds when the line runs, the bucket of
  a name at a ratio is one function of the name and the ratio, which the first equation
  writes out: the key is made from the name, the generator from the key, the integer from
  the first four bytes of the generator. So two invocations on equal names and equal
  ratios give equal buckets, from any two states of the pool, also when other calls of
  \<open>seedrandom\<close>, with any seed and any option, have changed the pool in between; and
  the output file of a base file and a catalog entry has the same path.
\<close>

theorem split_deterministic:
  "subdir (seeded_int32 pool) name ratio
     = (if js_lt (js_div (num (js_rem
              \<bar>sint (word_of_nat (fst (arc4_g 4 (ARC4 (mixkey name [])))) :: 32 word)\<bar> 10))
            (num 10)) ratio
        then ''train'' else ''test'')
   \<and> subdir (seeded_int32 pool_a) name ratio = subdir (seeded_int32 pool_b) name ratio
   \<and> subdir (seeded_int32 (snd (seedrandom other entropy pool))) name ratio
       = subdir (seeded_int32 pool) name ratio
   \<and> outputFile (env\<lparr>int32 := seeded_int32 pool_a\<rparr>) options ratio baseFile i
       = outputFile (env\<lparr>int32 := seeded_int32 pool_b\<rparr>) options ratio baseFile i"
  by (simp add: subdir_def seed_def seeded_int32_eq outputFile_def)

section \<open>The example run\<close>

lemma example_subdir: "subdir (int32 example_env) n (fl (4 / 5)) = ''train''"
proof -
  have "subdir (\<lambda>_. 7) n (fl (4 / 5)) = ''train''"
    by code_simp
  then show ?thesis
    by (simp add: example_env_def)
qed

lemma example_name: "outputFileName ''bases/sample/a.png'' i = ''a_'' @ i @ ''.jpg''"
  by (simp add: outputFileName_def path_parse_name_def basename_def)

lemma example_out:
  "outputFile example_env example_options (fl (4 / 5)) ''bases/sample/a.png'' i
     = ''/app/out/train/a_'' @ i @ ''.jpg''"
  by (simp add: outputFile_def example_subdir example_name)
     (simp add: example_env_def example_options_def)

lemma example_background:
  "path_join example_env [dirname example_env, ''background'', f] = ''/app/background/'' @ f"
  by (simp add: example_env_def)

lemma example_lines:
  "generate_line example_env (''/app/out/train/a_'' @ i @ ''.jpg'') = ''Generate out/train/a_'' @ i @ ''.jpg''"
  "skip_line example_env (''/app/out/train/a_'' @ i @ ''.jpg'')
     = ''Skip out/train/a_'' @ i @ ''.jpg because it already exists''"
  by (simp_all add: generate_line_def skip_line_def example_env_def)

lemma example_entries:
  "entries example_catalog = [(''0'', example_center), (''1'', example_embedded), (''2'', example_other)]"
  by code_simp

lemma example_glob:
  "globSync example_env (pattern example_options) = [''bases/sample/a.png'']"
  by (simp add: example_env_def example_options_def pattern_def)

lemma example_generate:
  "generate example_env example_options r w
     = for_each (process_pair example_env example_options r ''bases/sample/a.png'')
         [(''0'', example_center), (''1'', example_embedded), (''2'', example_other)] w"
  by (simp add: generate_def example_glob example_entries [symmetric])
     (simp add: example_env_def bindE_def split: sum.splits)

lemma example_centerWidth: "centerWidth (400, 200) = Fin 480"
  by code_simp

lemma example_center_geometry:
  "positive_integer ''width'' (centerWidth (400, 200)) = Inr 480"
  "centerComposition (auto_height example_env) (400, 200) (600, 1200)
     = Inr \<lparr>canvas = (480, 960), overlay = (400, 200), place = Gravity ''center'', blend = ''over''\<rparr>"
  by (simp_all add: example_centerWidth centerComposition_def resize_width_def
      positive_integer_def integer_of_def example_env_def example_heights_def)

text \<open>The three entries of the example, on a world that holds the base file and the backgrounds.\<close>

lemma example_center_step:
  assumes "files w ''bases/sample/a.png'' = Some \<lparr>mtime = t, image = Some (400, 200)\<rparr>"
    and "files w ''/app/background/wood.jpg'' = Some \<lparr>mtime = 0, image = Some (600, 1200)\<rparr>"
    and "\<not> fresh (files w) ''bases/sample/a.png'' ''/app/out/train/a_0.jpg''"
  shows "process_pair example_env example_options (fl (4 / 5)) ''bases/sample/a.png''
           (''0'', example_center) w
         = Inr (console_log ''Generate out/train/a_0.jpg''
                 (write_image w ''/app/out/train/a_0.jpg'' (480, 960)))"
proof -
  have "up_to_date w ''bases/sample/a.png''
          (outputFile example_env example_options (fl (4 / 5)) ''bases/sample/a.png'' ''0'') = Inr False"
    using assms by (simp add: up_to_date_base example_out)
  moreover have "composite example_center = ''center''"
    by (simp add: example_center_def)
  moreover have "centerImage (auto_height example_env) w ''bases/sample/a.png''
                   ''/app/background/wood.jpg'' ''/app/out/train/a_0.jpg''
                   = Inr (write_image w ''/app/out/train/a_0.jpg'' (480, 960))"
    using assms(1,2)
    by (simp add: centerImage_def metadata_Some example_center_geometry toFile_def)
  moreover have "filename example_center = ''wood.jpg''"
    by (simp add: example_center_def)
  ultimately show ?thesis
    using example_lines(1) [of "''0''"]
    by (simp add: process_pair_center example_background example_out)
qed

lemma example_embedded_step:
  assumes "files w ''bases/sample/a.png'' = Some \<lparr>mtime = t, image = Some (400, 200)\<rparr>"
    and "files w ''/app/out/train/a_1.jpg'' = None"
  shows "process_pair example_env example_options (fl (4 / 5)) ''bases/sample/a.png''
           (''1'', example_embedded) w = Inr w"
proof -
  have "up_to_date w ''bases/sample/a.png''
          (outputFile example_env example_options (fl (4 / 5)) ''bases/sample/a.png'' ''1'') = Inr False"
    using assms by (simp add: up_to_date_absent example_out)
  moreover have "composite example_embedded = ''embedded''"
    by (simp add: example_embedded_def)
  moreover have "metadata w ''bases/sample/a.png'' = Inr (400, 200)"
    using assms by (simp add: metadata_Some)
  moreover have "Some (baseOrientation (400, 200)) \<noteq> orientation example_embedded"
    by (simp add: baseOrientation_def example_embedded_def)
  ultimately show ?thesis
    by (rule process_pair_mismatch)
qed

lemma example_other_step:
  assumes "files w ''/app/out/train/a_2.jpg'' = None"
  shows "process_pair example_env example_options (fl (4 / 5)) ''bases/sample/a.png''
           (''2'', example_other) w = Inr (console_log ''Generate out/train/a_2.jpg'' w)"
proof -
  have "up_to_date w ''bases/sample/a.png''
          (outputFile example_env example_options (fl (4 / 5)) ''bases/sample/a.png'' ''2'') = Inr False"
    using assms by (simp add: up_to_date_absent example_out)
  then show ?thesis
    using example_lines(1) [of "''2''"]
    by (simp add: process_pair_other example_other_def example_out)
qed

lemma example_files_simps:
  "example_files t ''bases/sample/a.png'' = Some \<lparr>mtime = t, image = Some (400, 200)\<rparr>"
  "example_files t ''/app/background/wood.jpg'' = Some \<lparr>mtime = 0, image = Some (600, 1200)\<rparr>"
  "example_files t ''/app/background/frame.png'' = Some \<lparr>mtime = 0, image = Some (1000, 800)\<rparr>"
  "example_files t (''/app/out/train/a_'' @ i @ ''.jpg'') = None"
  by (simp_all add: example_files_def)

text \<open>The first run on the example world: one file is encoded, two lines are written.\<close>

lemma example_first_run:
  "generate example_env example_options (fl (4 / 5)) (example_world t)
     = Inr (console_log ''Generate out/train/a_2.jpg''
             (console_log ''Generate out/train/a_0.jpg''
               (write_image (example_world t) ''/app/out/train/a_0.jpg'' (480, 960))))"
proof -
  let ?w0 = "example_world t"
  let ?w1 = "console_log ''Generate out/train/a_0.jpg''
               (write_image ?w0 ''/app/out/train/a_0.jpg'' (480, 960))"
  have f0: "files ?w0 = example_files t"
    by (simp add: example_world_def)
  have 1: "process_pair example_env example_options (fl (4 / 5)) ''bases/sample/a.png''
             (''0'', example_center) ?w0 = Inr ?w1"
    using example_files_simps(4) [of t "''0''"]
    by (intro example_center_step [where t = t]) (simp_all add: f0 example_files_simps fresh_def)
  have 2: "process_pair example_env example_options (fl (4 / 5)) ''bases/sample/a.png''
             (''1'', example_embedded) ?w1 = Inr ?w1"
    using example_files_simps(4) [of t "''1''"]
    by (intro example_embedded_step [where t = t]) (simp_all add: f0 example_files_simps)
  have 3: "process_pair example_env example_options (fl (4 / 5)) ''bases/sample/a.png''
             (''2'', example_other) ?w1 = Inr (console_log ''Generate out/train/a_2.jpg'' ?w1)"
    using example_files_simps(4) [of t "''2''"]
    by (intro example_other_step) (simp_all add: f0)
  show ?thesis
    by (simp add: example_generate 1 2 3)
qed

section \<open>The theorems on the example\<close>

theorem empty_glob_witness:
  "generate example_env \<lparr>type = ''mynumber'', output_dir = ''out''\<rparr> (fl (4 / 5)) (example_world 0)
     = Inr ((example_world 0)
              \<lparr>console := [''Base image not found in bases/mynumber/*.{png,jpg}.'']\<rparr>)"
proof -
  have "globSync example_env (pattern \<lparr>type = ''mynumber'', output_dir = ''out''\<rparr>) = []"
    by (simp add: example_env_def pattern_def)
  from empty_glob [OF this, of "fl (4 / 5)" "example_world 0"] show ?thesis
    by (simp add: example_world_def)
qed

theorem unknown_composite_witness:
  "process_pair example_env example_options (fl (4 / 5)) ''bases/sample/a.png''
     (''2'', example_other) (example_world 0)
   = Inr ((example_world 0)\<lparr>console := [''Generate out/train/a_2.jpg'']\<rparr>)"
proof -
  have "files (example_world 0) ''/app/out/train/a_2.jpg'' = None"
    using example_files_simps(4) [of 0 "''2''"] by (simp add: example_world_def)
  then have "up_to_date (example_world 0) ''bases/sample/a.png''
          (outputFile example_env example_options (fl (4 / 5)) ''bases/sample/a.png'' ''2'') = Inr False"
    by (simp add: up_to_date_absent example_out)
  moreover have "composite example_other \<noteq> ''center''" "composite example_other \<noteq> ''embedded''"
    by (simp_all add: example_other_def)
  ultimately show ?thesis
    using unknown_composite [of example_other "example_world 0" "''bases/sample/a.png''"
        example_env example_options "fl (4 / 5)" "''2''"]
    by (simp add: example_out) (simp add: example_env_def example_world_def)
qed

theorem orientation_guard_witness:
  "baseOrientation (400, 200) = ''landscape''
   \<and> orientation example_embedded = Some ''portrait''
   \<and> process_pair example_env example_options (fl (4 / 5)) ''bases/sample/a.png''
       (''1'', example_embedded) (example_world 0) = Inr (example_world 0)"
proof -
  have f: "files (example_world 0) ''bases/sample/a.png'' = Some \<lparr>mtime = 0, image = Some (400, 200)\<rparr>"
    by (simp add: example_world_def example_files_simps)
  have n: "\<not> fresh (files (example_world 0)) ''bases/sample/a.png''
              (outputFile example_env example_options (fl (4 / 5)) ''bases/sample/a.png'' ''1'')"
    using example_files_simps(4) [of 0 "''1''"]
    by (simp add: example_out fresh_def example_world_def example_files_simps)
  have "composite example_embedded = ''embedded''"
    and "orientation example_embedded \<noteq> Some (if (400::nat) > 200 then ''landscape'' else ''portrait'')"
    by (simp_all add: example_embedded_def)
  from orientation_guard [OF this(1) f _ this(2), of example_env example_options "fl (4 / 5)" "''1''" "[]"] n
  show ?thesis
    by (auto simp: example_embedded_def)
qed

theorem split_deterministic_witness:
  "subdir (seeded_int32 []) ''a_0.jpg'' (fl (4 / 5))
     = subdir (seeded_int32 (snd (seedrandom ''a_1.jpg'' False [7, 7]))) ''a_0.jpg'' (fl (4 / 5))
   \<and> outputFile (example_env\<lparr>int32 := seeded_int32 []\<rparr>) example_options (fl (4 / 5))
        ''bases/sample/a.png'' ''0''
     = outputFile (example_env\<lparr>int32 := seeded_int32 [1, 2, 3]\<rparr>) example_options (fl (4 / 5))
        ''bases/sample/a.png'' ''0''"
  using split_deterministic [where name = "''a_0.jpg''" and ratio = "fl (4 / 5)" and pool = "[7, 7]"
      and other = "''a_1.jpg''" and entropy = False and pool_a = "[]"
      and pool_b = "snd (seedrandom ''a_1.jpg'' False [7, 7])"]
    split_deterministic [where ratio = "fl (4 / 5)" and pool_a = "[]" and pool_b = "[1, 2, 3]"
      and env = example_env and options = example_options
      and baseFile = "''bases/sample/a.png''" and i = "''0''"]
  by simp

section \<open>The command line\<close>

lemma unlisted_type_rejected:
  "t \<notin> set choices \<Longrightarrow> main env (Some t) out w = Inl (InvalidArgument t)"
  by (simp add: main_def parse_options_def)

text \<open>
  C8. The value \<open>sample\<close> is none of the five document types that the program documents,
  and the command line accepts it: the options parse, \<open>main\<close> runs \<open>generate\<close> on them,
  and on the example world the run reads \<open>bases/sample\<close> and writes an output file.
\<close>

theorem sample_type_accepted:
  "''sample'' \<notin> set documented_types
   \<and> parse_options (Some ''sample'') (Some dir) = Inr \<lparr>type = ''sample'', output_dir = dir\<rparr>
   \<and> main env (Some ''sample'') (Some dir) w
       = generate env \<lparr>type = ''sample'', output_dir = dir\<rparr> (fl (4 / 5)) w
   \<and> main example_env (Some ''sample'') (Some ''out'') (example_world 0)
       = Inr (console_log ''Generate out/train/a_2.jpg''
               (console_log ''Generate out/train/a_0.jpg''
                 (write_image (example_world 0) ''/app/out/train/a_0.jpg'' (480, 960))))"
proof -
  have "main env (Some ''sample'') (Some dir) w
       = generate env \<lparr>type = ''sample'', output_dir = dir\<rparr> (fl (4 / 5)) w" for env dir w
    by (simp add: parse_options_def choices_def main_def)
  moreover from this [of example_env "''out''" "example_world 0"]
  have "main example_env (Some ''sample'') (Some ''out'') (example_world 0)
       = Inr (console_log ''Generate out/train/a_2.jpg''
               (console_log ''Generate out/train/a_0.jpg''
                 (write_image (example_world 0) ''/app/out/train/a_0.jpg'' (480, 960))))"
    using example_first_run [of 0] by (simp add: example_options_def)
  ultimately show ?thesis
    by (simp add: documented_types_def parse_options_def choices_def)
qed

section \<open>The compositors\<close>






lemma placeComposition_Inr:
  "placeComposition rb g tb = Inr c \<longleftrightarrow>
     (\<exists>sw sh t l. resizedBackground g (backgroundScale rb g tb) = Inr (sw, sh)
        \<and> compositeAt (sw, sh) tb = Inr (TopLeft t l)
        \<and> c = \<lparr>canvas = (sw, sh), overlay = rb, place = TopLeft t l, blend = ''dest-over''\<rparr>)"
proof -
  have "compositeAt s tb = Inr p \<Longrightarrow> \<exists>t l. p = TopLeft t l" for s p
    by (auto simp: compositeAt_def split: option.splits)
  then show ?thesis
    by (fastforce simp: placeComposition_def bindE_eq_Inr)
qed

lemma compositeAt_Inr:
  "compositeAt (sw, sh) tb = Inr (TopLeft t l) \<longleftrightarrow>
     (num t = js_floor (js_mul (top tb) (num (int sh)))
      \<and> num l = js_floor (js_mul (left tb) (num (int sw))))"
proof -
  define a where "a = js_floor (js_mul (top tb) (num (int sh)))"
  define b where "b = js_floor (js_mul (left tb) (num (int sw)))"
  have "compositeAt (sw, sh) tb = Inr (TopLeft t l)
          \<longleftrightarrow> integer_of a = Some t \<and> integer_of b = Some l"
    by (cases "integer_of a"; cases "integer_of b") (simp_all add: compositeAt_def a_def b_def)
  also have "\<dots> \<longleftrightarrow> num t = a \<and> num l = b"
    by (auto simp: integer_of_Some)
  finally show ?thesis
    by (simp add: a_def b_def)
qed

lemma num_eq [simp]: "num a = num b \<longleftrightarrow> a = b"
  by (simp add: num_def)

lemma resizedBase_Inr:
  "resizedBase (bw, bh) tb = Inr rb \<longleftrightarrow>
     (\<exists>h. 0 < bw \<and> 0 < h \<and> rb = (bw, h)
          \<and> num (int h) = js_floor (js_div (js_mul (num (int bw)) (height tb)) (width tb)))"
  by (cases rb) (auto simp: resizedBase_def resize_to_Inr)

lemma resizedBackground_Inr:
  "resizedBackground (gw, gh) s = Inr (sw, sh) \<longleftrightarrow>
     (0 < sw \<and> 0 < sh
      \<and> num (int sw) = js_floor (js_mul (num (int gw)) s)
      \<and> num (int sh) = js_floor (js_mul (num (int gh)) s))"
  by (auto simp: resizedBackground_def resize_to_Inr)

lemma example_fractions:
  "js_floor (js_div (js_mul (num 400) (fl (3 / 10))) (fl (1 / 2))) = num 240"
  "js_div (num 400) (js_mul (num 1000) (fl (1 / 2))) = fl (4 / 5)"
  "js_floor (js_mul (num 1000) (fl (4 / 5))) = num 800"
  "js_floor (js_mul (num 800) (fl (4 / 5))) = num 640"
  "js_floor (js_mul (fl (1 / 10)) (num 640)) = num 64"
  "js_floor (js_mul (fl (1 / 10)) (num 800)) = num 80"
  "js_floor (js_div (js_mul (num 400) (fl (9 / 10))) (fl (1 / 2))) = num 720"
  by code_simp+

lemma example_embedded_geometry:
  "resizedBase (400, 200) example_boundary = Inr (400, 240)"
  "backgroundScale (400, 240) (1000, 800) example_boundary = fl (4 / 5)"
  "placeComposition (400, 240) (1000, 800) example_boundary
     = Inr \<lparr>canvas = (800, 640), overlay = (400, 240), place = TopLeft 64 80,
            blend = ''dest-over''\<rparr>"
proof -
  show 1: "resizedBase (400, 200) example_boundary = Inr (400, 240)"
    by (simp add: resize_to_Inr resizedBase_def example_boundary_def example_fractions)
  show 2: "backgroundScale (400, 240) (1000, 800) example_boundary = fl (4 / 5)"
    by (simp add: backgroundScale_def example_boundary_def example_fractions)
  have "resizedBackground (1000, 800) (fl (4 / 5)) = Inr (800, 640)"
    by (simp add: resize_to_Inr resizedBackground_def example_fractions)
  moreover have "compositeAt (800, 640) example_boundary = Inr (TopLeft 64 80)"
    by (simp add: compositeAt_Inr example_boundary_def example_fractions)
  ultimately show "placeComposition (400, 240) (1000, 800) example_boundary
     = Inr \<lparr>canvas = (800, 640), overlay = (400, 240), place = TopLeft 64 80,
            blend = ''dest-over''\<rparr>"
    by (simp add: placeComposition_Inr 2)
qed

text \<open>
  C4, as amended. The arithmetic of the embedded compositor is binary64 arithmetic on the
  binary64 values of the fractions: every product and quotient is rounded before the
  next operation. The compositor asks for the base in its own width and the height
  \<open>floor(baseWidth * boundary.height / boundary.width)\<close> (the fit \<open>fill\<close> gives exactly
  that size); with \<open>s = resizedBaseWidth / (backgroundWidth * boundary.width)\<close> it asks
  for the background in the size \<open>floor(backgroundWidth * s)\<close> by
  \<open>floor(backgroundHeight * s)\<close>, and for the resized base to be drawn at
  \<open>left = floor(boundary.left * scaledWidth)\<close>, \<open>top = floor(boundary.top * scaledHeight)\<close>.
  It returns, with the encoding of that composition started, exactly when the three
  sizes are positive integers and the two offsets are integers, which is what the image
  library asks of them; whether the library is going to accept the composition plays no
  part. For the boundary \<open>{left: 0.1, top: 0.1, width: 0.5, height: 0.3}\<close>, a base of
  400 by 200 and a background of 1000 by 800 the resized base is 400 by 240, the scale is
  \<open>0.8\<close>, the scaled background is 800 by 640 and the offset is left 80, top 64.
\<close>

theorem embedded_geometry:
  assumes "metadata w baseFile = Inr (bw, bh)"
    and "metadata w backgroundFile = Inr (gw, gh)"
  shows "(placeOnTransparent w baseFile backgroundFile outFile tb = Inr started \<longleftrightarrow>
            (\<exists>h sw sh t l.
                0 < bw \<and> 0 < h \<and> 0 < sw \<and> 0 < sh
              \<and> num (int h) = js_floor (js_div (js_mul (num (int bw)) (height tb)) (width tb))
              \<and> num (int sw)
                  = js_floor (js_mul (num (int gw))
                      (js_div (num (int bw)) (js_mul (num (int gw)) (width tb))))
              \<and> num (int sh)
                  = js_floor (js_mul (num (int gh))
                      (js_div (num (int bw)) (js_mul (num (int gw)) (width tb))))
              \<and> num l = js_floor (js_mul (left tb) (num (int sw)))
              \<and> num t = js_floor (js_mul (top tb) (num (int sh)))
              \<and> started = (outFile, \<lparr>canvas = (sw, sh), overlay = (bw, h),
                                      place = TopLeft t l, blend = ''dest-over''\<rparr>)))
       \<and> resizedBase (400, 200) example_boundary = Inr (400, 240)
       \<and> backgroundScale (400, 240) (1000, 800) example_boundary = fl (4 / 5)
       \<and> placeComposition (400, 240) (1000, 800) example_boundary
           = Inr \<lparr>canvas = (800, 640), overlay = (400, 240), place = TopLeft 64 80,
                  blend = ''dest-over''\<rparr>"
proof -
  have "placeOnTransparent w baseFile backgroundFile outFile tb = Inr started \<longleftrightarrow>
          (\<exists>rb c. resizedBase (bw, bh) tb = Inr rb \<and> placeComposition rb (gw, gh) tb = Inr c
                 \<and> started = (outFile, c))"
    using assms by (auto simp: placeOnTransparent_def bindE_eq_Inr)
  also have "\<dots> \<longleftrightarrow>
            (\<exists>h sw sh t l.
                0 < bw \<and> 0 < h \<and> 0 < sw \<and> 0 < sh
              \<and> num (int h) = js_floor (js_div (js_mul (num (int bw)) (height tb)) (width tb))
              \<and> num (int sw)
                  = js_floor (js_mul (num (int gw))
                      (js_div (num (int bw)) (js_mul (num (int gw)) (width tb))))
              \<and> num (int sh)
                  = js_floor (js_mul (num (int gh))
                      (js_div (num (int bw)) (js_mul (num (int gw)) (width tb))))
              \<and> num l = js_floor (js_mul (left tb) (num (int sw)))
              \<and> num t = js_floor (js_mul (top tb) (num (int sh)))
              \<and> started = (outFile, \<lparr>canvas = (sw, sh), overlay = (bw, h),
                                      place = TopLeft t l, blend = ''dest-over''\<rparr>))"
    unfolding resizedBase_Inr placeComposition_Inr
    by (auto simp: resizedBackground_Inr compositeAt_Inr backgroundScale_def)
  finally show ?thesis
    using example_embedded_geometry by blast
qed

text \<open>
  C4, as stated, fails where the binary64 value is not the exact one. For the boundary
  \<open>{left: 0, top: 0, width: 1, height: 0.57}\<close> and a base of 100 by 50 pixels,
  \<open>floor(100 * 0.57 / 1)\<close> is 57; the binary64 value of \<open>0.57\<close> is below \<open>0.57\<close>, the
  product is below 57, and the program resizes the base to the height 56.
\<close>

theorem embedded_height_counterexample:
  "resizedBase (100, 50) \<lparr>left = fl 0, top = fl 0, width = fl 1, height = fl (57 / 100)\<rparr>
     = Inr (100, 56)
   \<and> spec_resized_base_height 100 (57 / 100) 1 = 57
   \<and> int 56 \<noteq> spec_resized_base_height 100 (57 / 100) 1"
proof -
  have "js_floor (js_div (js_mul (num 100) (fl (57 / 100))) (fl 1)) = num 56"
    by code_simp
  then have "resizedBase (100, 50) \<lparr>left = fl 0, top = fl 0, width = fl 1, height = fl (57 / 100)\<rparr>
     = Inr (100, 56)"
    by (simp add: resizedBase_def resize_to_Inr)
  moreover have "spec_resized_base_height 100 (57 / 100) 1 = 57"
    by code_simp
  ultimately show ?thesis
    by simp
qed

text \<open>
  On the example the compositor starts the encoding of the frame of 800 by 640 pixels,
  which the library accepts. With the height \<open>0.9\<close> in the boundary it returns in the same
  way, with a base of 400 by 720 pixels to be drawn on the frame of 800 by 640; the
  library refuses that after the compositor has returned.
\<close>

theorem embedded_geometry_witness:
  "placeOnTransparent (example_world 0) ''bases/sample/a.png'' ''/app/background/frame.png''
     ''/app/out/train/a_1.jpg'' example_boundary
     = Inr (''/app/out/train/a_1.jpg'',
            \<lparr>canvas = (800, 640), overlay = (400, 240), place = TopLeft 64 80,
             blend = ''dest-over''\<rparr>)
   \<and> unawaited (''/app/out/train/a_1.jpg'',
         \<lparr>canvas = (800, 640), overlay = (400, 240), place = TopLeft 64 80,
          blend = ''dest-over''\<rparr>) (example_world 0)
     = Inr (write_image (example_world 0) ''/app/out/train/a_1.jpg'' (800, 640))
   \<and> placeOnTransparent (example_world 0) ''bases/sample/a.png'' ''/app/background/frame.png''
       ''/app/out/train/a_1.jpg'' (example_boundary\<lparr>height := fl (9 / 10)\<rparr>)
     = Inr (''/app/out/train/a_1.jpg'',
            \<lparr>canvas = (800, 640), overlay = (400, 720), place = TopLeft 64 80,
             blend = ''dest-over''\<rparr>)
   \<and> unawaited (''/app/out/train/a_1.jpg'',
         \<lparr>canvas = (800, 640), overlay = (400, 720), place = TopLeft 64 80,
          blend = ''dest-over''\<rparr>) (example_world 0)
     = Inl (UnhandledRejection CompositeTooLarge)"
proof -
  have m: "metadata (example_world 0) ''bases/sample/a.png'' = Inr (400, 200)"
    "metadata (example_world 0) ''/app/background/frame.png'' = Inr (1000, 800)"
    by (simp_all add: metadata_def example_world_def example_files_simps)
  note g = embedded_geometry [OF m, THEN conjunct1, THEN iffD2]
  have 1: "placeOnTransparent (example_world 0) ''bases/sample/a.png'' ''/app/background/frame.png''
     ''/app/out/train/a_1.jpg'' example_boundary
     = Inr (''/app/out/train/a_1.jpg'',
            \<lparr>canvas = (800, 640), overlay = (400, 240), place = TopLeft 64 80,
             blend = ''dest-over''\<rparr>)"
    by (rule g, intro exI [of _ 240] exI [of _ 800] exI [of _ 640] exI [of _ 64] exI [of _ 80])
       (simp add: example_boundary_def example_fractions)
  have 2: "placeOnTransparent (example_world 0) ''bases/sample/a.png'' ''/app/background/frame.png''
       ''/app/out/train/a_1.jpg'' (example_boundary\<lparr>height := fl (9 / 10)\<rparr>)
     = Inr (''/app/out/train/a_1.jpg'',
            \<lparr>canvas = (800, 640), overlay = (400, 720), place = TopLeft 64 80,
             blend = ''dest-over''\<rparr>)"
    by (rule g, intro exI [of _ 720] exI [of _ 800] exI [of _ 640] exI [of _ 64] exI [of _ 80])
       (simp add: example_boundary_def example_fractions)
  show ?thesis
    using 1 2 by (simp add: unawaited_def toFile_def)
qed

section \<open>Skipping and the second run\<close>

lemma process_pair_files:
  assumes "process_pair env options r baseFile (i, meta) w = Inr w'"
  shows "(files w' = files w \<and> now w' = now w \<and> encoded w' = encoded w)
       \<or> (\<exists>s. files w' = (files w)(outputFile env options r baseFile i
                                     \<mapsto> \<lparr>mtime = now w, image = Some s\<rparr>)
              \<and> now w' = now w + 1
              \<and> encoded w' = encoded w @ [outputFile env options r baseFile i])"
proof -
  let ?out = "outputFile env options r baseFile i"
  from process_pair_Inr [OF assms] consider
      (same) "files w' = files w" "now w' = now w" "encoded w' = encoded w"
    | (wrote) s where "w' = console_log (generate_line env ?out) (write_image w ?out s)"
    by auto
  then show ?thesis
  proof cases
    case same
    then show ?thesis by simp
  next
    case (wrote s)
    then have "files w' = (files w)(?out \<mapsto> \<lparr>mtime = now w, image = Some s\<rparr>)"
      "now w' = now w + 1" "encoded w' = encoded w @ [?out]"
      by simp_all
    then show ?thesis by blast
  qed
qed

lemma quiet_step:
  assumes "quiet env options r (files w) baseFile (i, meta)"
  shows "\<exists>w'. process_pair env options r baseFile (i, meta) w = Inr w'
            \<and> files w' = files w \<and> now w' = now w \<and> encoded w' = encoded w"
proof -
  let ?out = "outputFile env options r baseFile i"
  from assms obtain b where b: "files w baseFile = Some b"
    by (auto simp: quiet_def split: option.splits)
  have u: "up_to_date w baseFile ?out = Inr (fresh (files w) baseFile ?out)"
    using b by (rule up_to_date_base)
  show ?thesis
  proof (cases "fresh (files w) baseFile ?out")
    case True
    then show ?thesis
      by (simp add: process_pair_fresh)
  next
    case False
    with assms b have c: "composite meta \<noteq> ''center''"
      and e: "composite meta = ''embedded'' \<Longrightarrow>
               \<exists>s. image b = Some s \<and> Some (baseOrientation s) \<noteq> orientation meta"
      by (auto simp: quiet_def split: option.splits)
    from u False have u': "up_to_date w baseFile ?out = Inr False"
      by simp
    show ?thesis
    proof (cases "composite meta = ''embedded''")
      case True
      with e obtain s where s: "image b = Some s" "Some (baseOrientation s) \<noteq> orientation meta"
        by blast
      then have "metadata w baseFile = Inr s"
        using b by (simp add: metadata_Some)
      with u' True have "process_pair env options r baseFile (i, meta) w = Inr w"
        using s(2) by (rule process_pair_mismatch)
      then show ?thesis
        by simp
    next
      case False
      with u' c have "process_pair env options r baseFile (i, meta) w
                        = Inr (console_log (generate_line env ?out) w)"
        by (simp add: process_pair_other)
      then show ?thesis
        by simp
    qed
  qed
qed

lemma step_makes_quiet:
  assumes step: "process_pair env options r baseFile (i, meta) w = Inr w'"
    and b: "files w baseFile = Some b" and old: "mtime b \<le> now w"
    and ne: "outputFile env options r baseFile i \<noteq> baseFile"
  shows "quiet env options r (files w') baseFile (i, meta)"
proof -
  let ?out = "outputFile env options r baseFile i"
  have u: "up_to_date w baseFile ?out = Inr (fresh (files w) baseFile ?out)"
    using b by (rule up_to_date_base)
  have wrote: "quiet env options r (files (console_log l (write_image w ?out s))) baseFile (i, meta)"
    for l s
    using b old ne by (simp add: quiet_def fresh_def)
  show ?thesis
  proof (cases "fresh (files w) baseFile ?out")
    case True
    with step have "w' = console_log (skip_line env ?out) w"
      by (simp add: process_pair_fresh)
    with True b show ?thesis
      by (simp add: quiet_def)
  next
    case False
    with u have u': "up_to_date w baseFile ?out = Inr False"
      by simp
    consider (center) "composite meta = ''center''"
      | (embedded) "composite meta \<noteq> ''center''" "composite meta = ''embedded''"
      | (other) "composite meta \<noteq> ''center''" "composite meta \<noteq> ''embedded''"
      by blast
    then show ?thesis
    proof cases
      case center
      with step u' obtain w'' where "centerImage (auto_height env) w baseFile
          (path_join env [dirname env, ''background'', filename meta]) ?out = Inr w''"
        and "w' = console_log (generate_line env ?out) w''"
        by (auto simp: process_pair_center bindE_eq_Inr)
      then show ?thesis
        using wrote by (auto dest!: centerImage_Inr)
    next
      case embedded
      from step u' embedded obtain s where s: "metadata w baseFile = Inr s"
        by (auto simp: process_pair_def bindE_eq_Inr Let_def)
      then have img: "image b = Some s"
        using b by (simp add: metadata_Inr)
      show ?thesis
      proof (cases "Some (baseOrientation s) = orientation meta")
        case False
        with step u' embedded s have "w' = w"
          by (simp add: process_pair_mismatch)
        with False embedded b img show ?thesis
          by (simp add: quiet_def)
      next
        case True
        with step u' embedded s obtain tb where "transparentBoundary meta = Some tb"
          by (cases "transparentBoundary meta") (auto simp: process_pair_def Let_def)
        from step [unfolded process_pair_embedded [OF u' embedded s True this]]
        show ?thesis
          using wrote by (auto dest!: embedded_step_Inr)
      qed
    next
      case other
      with step u' have "w' = console_log (generate_line env ?out) w"
        by (simp add: process_pair_other)
      with other b show ?thesis
        by (simp add: quiet_def)
    qed
  qed
qed

lemma step_keeps_quiet:
  assumes step: "process_pair env options r baseFile (i, meta) w = Inr w'"
    and q: "quiet env options r (files w) baseFile' entry'"
    and b': "files w baseFile' = Some b'" and old: "mtime b' \<le> now w"
    and ne: "outputFile env options r baseFile i \<noteq> baseFile'"
  shows "quiet env options r (files w') baseFile' entry'"
proof -
  let ?out = "outputFile env options r baseFile i"
  let ?out' = "outputFile env options r baseFile' (fst entry')"
  from process_pair_files [OF step] consider
      (same) "files w' = files w"
    | (wrote) s where "files w' = (files w)(?out \<mapsto> \<lparr>mtime = now w, image = Some s\<rparr>)"
    by blast
  then show ?thesis
  proof cases
    case same
    with q show ?thesis by simp
  next
    case (wrote s)
    have base: "files w' baseFile' = Some b'"
      using wrote b' ne by simp
    show ?thesis
    proof (cases "?out' = ?out")
      case True
      then have "fresh (files w') baseFile' ?out'"
        using base wrote old by (simp add: fresh_def)
      then show ?thesis
        using base by (simp add: quiet_def)
    next
      case False
      then have "files w' ?out' = files w ?out'"
        using wrote by simp
      then have "fresh (files w') baseFile' ?out' = fresh (files w) baseFile' ?out'"
        using base b' by (simp add: fresh_def)
      then show ?thesis
        using q base b' by (simp add: quiet_def)
    qed
  qed
qed

lemma step_settled:
  assumes inv: "settled env options r B S w"
    and apart: "\<forall>b\<in>B. \<forall>b'\<in>B. \<forall>i. outputFile env options r b' i \<noteq> b"
    and base: "baseFile \<in> B"
    and step: "process_pair env options r baseFile entry w = Inr w'"
  shows "settled env options r B (insert (baseFile, entry) S) w'"
proof -
  obtain i meta where entry: "entry = (i, meta)"
    by (cases entry)
  note step' = step [unfolded entry]
  have ready: "\<exists>st. files w b = Some st \<and> mtime st \<le> now w" if "b \<in> B" for b
    using inv that by (auto simp: settled_def split: option.splits)
  have out: "outputFile env options r baseFile i \<noteq> b" if "b \<in> B" for b
    using apart base that by blast
  have ready': "case files w' b of None \<Rightarrow> False | Some st \<Rightarrow> mtime st \<le> now w'" if "b \<in> B" for b
    using process_pair_files [OF step'] ready [OF that] out [OF that] by auto
  have new: "quiet env options r (files w') baseFile entry"
    using ready [OF base] out [OF base] step' unfolding entry
    by (auto intro: step_makes_quiet)
  have kept: "quiet env options r (files w') (fst p) (snd p)" if "p \<in> S" for p
  proof -
    from inv that have "fst p \<in> B" and "quiet env options r (files w) (fst p) (snd p)"
      by (auto simp: settled_def)
    with ready [of "fst p"] out [of "fst p"] step' show ?thesis
      by (auto intro: step_keeps_quiet)
  qed
  show ?thesis
    using inv ready' new kept base by (auto simp: settled_def)
qed

lemma for_each_accumulate:
  assumes "\<And>x w w' D. x \<in> set xs \<Longrightarrow> P D w \<Longrightarrow> body x w = Inr w' \<Longrightarrow> P (insert x D) w'"
    and "P D w" and "for_each body xs w = Inr w'"
  shows "P (D \<union> set xs) w'"
  using assms
proof (induction xs arbitrary: D w)
  case Nil
  then show ?case by simp
next
  case (Cons x xs)
  from Cons.prems(3) obtain w1 where 1: "body x w = Inr w1" and 2: "for_each body xs w1 = Inr w'"
    by (auto simp: bindE_eq_Inr)
  have "P (insert x D) w1"
    using Cons.prems(1) [of x D w w1] Cons.prems(2) 1 by simp
  then have "P (insert x D \<union> set xs) w'"
    using Cons.prems(1) 2 by (intro Cons.IH) auto
  then show ?case
    by simp
qed

lemma entries_settled:
  assumes inv: "settled env options r B S w"
    and apart: "\<forall>b\<in>B. \<forall>b'\<in>B. \<forall>i. outputFile env options r b' i \<noteq> b"
    and base: "baseFile \<in> B"
    and run: "for_each (process_pair env options r baseFile) es w = Inr w'"
  shows "settled env options r B (S \<union> {baseFile} \<times> set es) w'"
proof -
  let ?P = "\<lambda>D w. settled env options r B (S \<union> {baseFile} \<times> D) w"
  have "?P ({} \<union> set es) w'"
  proof (rule for_each_accumulate [where P = ?P, OF _ _ run])
    show "?P {} w"
      using inv by simp
    show "?P (insert x D) w'" if "?P D w" "process_pair env options r baseFile x w = Inr w'"
      for x w w' D
    proof -
      have "insert (baseFile, x) (S \<union> {baseFile} \<times> D) = S \<union> {baseFile} \<times> insert x D"
        by auto
      then show ?thesis
        using step_settled [OF that(1) apart base that(2)] by simp
    qed
  qed
  then show ?thesis
    by simp
qed

lemma bases_settled:
  assumes inv: "settled env options r B {} w"
    and apart: "\<forall>b\<in>B. \<forall>b'\<in>B. \<forall>i. outputFile env options r b' i \<noteq> b"
    and bases: "set bs \<subseteq> B"
    and run: "for_each (\<lambda>baseFile. for_each (process_pair env options r baseFile) es) bs w = Inr w'"
  shows "settled env options r B (set bs \<times> set es) w'"
proof -
  let ?P = "\<lambda>D w. settled env options r B (D \<times> set es) w"
  have "?P ({} \<union> set bs) w'"
  proof (rule for_each_accumulate [where P = ?P, OF _ _ run])
    show "?P {} w"
      using inv by simp
    show "?P (insert x D) w'"
      if "x \<in> set bs" "?P D w" "for_each (process_pair env options r x) es w = Inr w'"
      for x w w' D
    proof -
      have "x \<in> B"
        using that(1) bases by blast
      moreover have "D \<times> set es \<union> {x} \<times> set es = insert x D \<times> set es"
        by auto
      ultimately show ?thesis
        using entries_settled [OF that(2) apart _ that(3)] by simp
    qed
  qed
  then show ?thesis
    by simp
qed

text \<open>A run over pairs that are all quiet changes neither the files nor the clock.\<close>

lemma quiet_entries:
  assumes "\<forall>e\<in>set es. quiet env options r (files w) baseFile e"
  shows "\<exists>w'. for_each (process_pair env options r baseFile) es w = Inr w'
            \<and> files w' = files w \<and> now w' = now w \<and> encoded w' = encoded w"
  using assms
proof (induction es arbitrary: w)
  case Nil
  then show ?case by simp
next
  case (Cons e es)
  obtain i meta where e: "e = (i, meta)"
    by (cases e)
  from Cons.prems e obtain w1 where 1: "process_pair env options r baseFile e w = Inr w1"
    and same: "files w1 = files w" "now w1 = now w" "encoded w1 = encoded w"
    using quiet_step [of env options r w baseFile i meta] by auto
  from Cons.prems same(1) have "\<forall>e\<in>set es. quiet env options r (files w1) baseFile e"
    by simp
  from Cons.IH [OF this] 1 same show ?case
    by auto
qed

lemma quiet_bases:
  assumes "\<forall>b\<in>set bs. \<forall>e\<in>set es. quiet env options r (files w) b e"
  shows "\<exists>w'. for_each (\<lambda>baseFile. for_each (process_pair env options r baseFile) es) bs w = Inr w'
            \<and> files w' = files w \<and> now w' = now w \<and> encoded w' = encoded w"
  using assms
proof (induction bs arbitrary: w)
  case Nil
  then show ?case by simp
next
  case (Cons b bs)
  from Cons.prems obtain w1 where 1: "for_each (process_pair env options r b) es w = Inr w1"
    and same: "files w1 = files w" "now w1 = now w" "encoded w1 = encoded w"
    using quiet_entries [of es env options r w b] by auto
  from Cons.prems same(1)
  have "\<forall>b\<in>set bs. \<forall>e\<in>set es. quiet env options r (files w1) b e"
    by simp
  from Cons.IH [OF this] 1 same show ?case
    by auto
qed

lemma skip_only_when_fresh:
  assumes "files w baseFile = Some b"
  shows "process_pair env options r baseFile (i, meta) w
           = Inr (console_log (skip_line env (outputFile env options r baseFile i)) w)
         \<longleftrightarrow> fresh (files w) baseFile (outputFile env options r baseFile i)"
proof
  let ?out = "outputFile env options r baseFile i"
  assume skip: "process_pair env options r baseFile (i, meta) w
           = Inr (console_log (skip_line env ?out) w)"
  show "fresh (files w) baseFile ?out"
  proof (rule ccontr)
    assume "\<not> fresh (files w) baseFile ?out"
    then have u: "up_to_date w baseFile ?out = Inr False"
      using assms by (simp add: up_to_date_base)
    have neq: "skip_line env ?out \<noteq> generate_line env ?out"
      by (simp add: skip_line_def generate_line_def)
    from process_pair_stale [OF u skip] neq show False
      by (auto dest!: arg_cong [where f = console])
  qed
next
  assume "fresh (files w) baseFile (outputFile env options r baseFile i)"
  then show "process_pair env options r baseFile (i, meta) w
           = Inr (console_log (skip_line env (outputFile env options r baseFile i)) w)"
    by (rule process_pair_fresh)
qed

text \<open>
  C6, as amended. The loop body skips a pair, with the line \<open>Skip ...\<close>, exactly when the
  output file exists and is not older than the base file. When every base file exists
  and none is newer than the clock at the start of a run, and no output path is the
  path of a base file, then after that run has returned a second run, whatever the
  clock shows by then, returns as well, encodes nothing and leaves every file as it is.
\<close>

theorem second_run_idempotent:
  assumes ready: "\<forall>b\<in>set (globSync env (pattern options)).
                    \<exists>st. files w b = Some st \<and> mtime st \<le> now w"
    and apart: "\<forall>b\<in>set (globSync env (pattern options)).
                  \<forall>b'\<in>set (globSync env (pattern options)).
                    \<forall>i. outputFile env options r b' i \<noteq> b"
    and run: "generate env options r w = Inr w1"
  shows "(\<exists>w2. generate env options r (w1\<lparr>now := t\<rparr>) = Inr w2
              \<and> files w2 = files w1 \<and> encoded w2 = encoded w1)
       \<and> (\<forall>baseFile b i meta w0.
             files w0 baseFile = Some b \<longrightarrow>
               (process_pair env options r baseFile (i, meta) w0
                  = Inr (console_log (skip_line env (outputFile env options r baseFile i)) w0)
                \<longleftrightarrow> (\<exists>out. files w0 (outputFile env options r baseFile i) = Some out
                            \<and> mtime b \<le> mtime out)))"
proof
  let ?bs = "globSync env (pattern options)"
  show "\<exists>w2. generate env options r (w1\<lparr>now := t\<rparr>) = Inr w2
              \<and> files w2 = files w1 \<and> encoded w2 = encoded w1"
  proof (cases "?bs = []")
    case True
    then show ?thesis
      by (simp add: generate_def)
  next
    case False
    with run obtain metas where metas: "catalog env = Some metas"
      and loop: "for_each (\<lambda>baseFile. for_each (process_pair env options r baseFile) (entries metas))
                   ?bs w = Inr w1"
      by (auto simp: generate_def split: option.splits)
    have "settled env options r (set ?bs) {} w"
      using ready by (auto simp: settled_def)
    from bases_settled [OF this apart subset_refl loop]
    have "\<forall>b\<in>set ?bs. \<forall>e\<in>set (entries metas). quiet env options r (files (w1\<lparr>now := t\<rparr>)) b e"
      by (auto simp: settled_def)
    from quiet_bases [OF this] False metas show ?thesis
      by (auto simp: generate_def)
  qed
  show "\<forall>baseFile b i meta w0.
             files w0 baseFile = Some b \<longrightarrow>
               (process_pair env options r baseFile (i, meta) w0
                  = Inr (console_log (skip_line env (outputFile env options r baseFile i)) w0)
                \<longleftrightarrow> (\<exists>out. files w0 (outputFile env options r baseFile i) = Some out
                            \<and> mtime b \<le> mtime out))"
    by (auto simp: skip_only_when_fresh fresh_def split: option.splits)
qed

lemma example_written:
  "files (console_log l2 (console_log l0 (write_image (example_world t) ''/app/out/train/a_0.jpg'' s)))
     = (example_files t)(''/app/out/train/a_0.jpg'' \<mapsto> \<lparr>mtime = 50, image = Some s\<rparr>)"
  by (simp add: example_world_def)

text \<open>
  C6, as stated, fails for a base file that is newer than the clock: the base file of the
  example world, last modified at time 100, at time 50. The first run encodes the output
  of the first catalog entry and stamps it with the clock; the second run, on the world
  the first has left, finds the output older than the base image and encodes it again.
\<close>

theorem second_run_counterexample:
  "map_sum id encoded (generate example_env example_options (fl (4 / 5)) (example_world 100))
     = Inr [''/app/out/train/a_0.jpg'']
   \<and> map_sum id encoded
       (bindE (generate example_env example_options (fl (4 / 5)) (example_world 100))
              (generate example_env example_options (fl (4 / 5))))
     = Inr [''/app/out/train/a_0.jpg'', ''/app/out/train/a_0.jpg'']"
proof -
  let ?w1 = "console_log ''Generate out/train/a_2.jpg''
              (console_log ''Generate out/train/a_0.jpg''
                (write_image (example_world 100) ''/app/out/train/a_0.jpg'' (480, 960)))"
  let ?w2 = "console_log ''Generate out/train/a_0.jpg''
               (write_image ?w1 ''/app/out/train/a_0.jpg'' (480, 960))"
  have 1: "process_pair example_env example_options (fl (4 / 5)) ''bases/sample/a.png''
             (''0'', example_center) ?w1 = Inr ?w2"
    by (intro example_center_step [where t = 100])
       (simp_all add: example_world_def example_files_simps fresh_def)
  have f2: "files ?w2 ''bases/sample/a.png'' = Some \<lparr>mtime = 100, image = Some (400, 200)\<rparr>"
    "files ?w2 ''/app/out/train/a_1.jpg'' = None" "files ?w2 ''/app/out/train/a_2.jpg'' = None"
    using example_files_simps(4) [of 100 "''1''"] example_files_simps(4) [of 100 "''2''"]
    by (simp_all add: example_world_def example_files_simps)
  have 2: "process_pair example_env example_options (fl (4 / 5)) ''bases/sample/a.png''
             (''1'', example_embedded) ?w2 = Inr ?w2"
    using f2 by (intro example_embedded_step [where t = 100])
  have 3: "process_pair example_env example_options (fl (4 / 5)) ''bases/sample/a.png''
             (''2'', example_other) ?w2 = Inr (console_log ''Generate out/train/a_2.jpg'' ?w2)"
    using f2 by (intro example_other_step)
  have "generate example_env example_options (fl (4 / 5)) ?w1
          = Inr (console_log ''Generate out/train/a_2.jpg'' ?w2)"
    by (simp add: example_generate 1 2 3)
  then show ?thesis
    by (simp add: example_first_run) (simp add: example_world_def)
qed

theorem second_run_idempotent_witness:
  "\<exists>w2. generate example_env example_options (fl (4 / 5))
           ((console_log ''Generate out/train/a_2.jpg''
              (console_log ''Generate out/train/a_0.jpg''
                (write_image (example_world 0) ''/app/out/train/a_0.jpg'' (480, 960))))
            \<lparr>now := 1000\<rparr>) = Inr w2
        \<and> files w2 = (example_files 0)(''/app/out/train/a_0.jpg''
                                         \<mapsto> \<lparr>mtime = 50, image = Some (480, 960)\<rparr>)
        \<and> encoded w2 = [''/app/out/train/a_0.jpg'']"
proof -
  have ready: "\<forall>b\<in>set (globSync example_env (pattern example_options)).
                 \<exists>st. files (example_world 0) b = Some st \<and> mtime st \<le> now (example_world 0)"
    by (simp add: example_glob) (simp add: example_world_def example_files_simps)
  have apart: "\<forall>b\<in>set (globSync example_env (pattern example_options)).
                 \<forall>b'\<in>set (globSync example_env (pattern example_options)).
                   \<forall>i. outputFile example_env example_options (fl (4 / 5)) b' i \<noteq> b"
    by (simp add: example_glob example_out)
  from second_run_idempotent [OF ready apart example_first_run, of 1000]
  show ?thesis
    by (simp add: example_written) (simp add: example_world_def)
qed

end
